theory Spec2Isabelle
  imports Complex_Main "HOL-Library.AList"
begin

section \<open>Python values and exceptions\<close>

text \<open>
  The client moves parsed JSON around unchecked: \<open>resp.json()\<close> and \<open>json.load\<close> return
  Python dicts, lists, strings, numbers, booleans and \<open>None\<close>, and every \<open>from_raw\<close>
  stores whatever \<open>data.get\<close> returns. The model keeps that dynamic typing: a field that
  the source fills from a raw document holds a \<open>json\<close> value.

  A number is represented by its exact value (Python compares an \<open>int\<close> and a
  \<open>float\<close> by value, and hashes them alike); the non-standard tokens \<open>NaN\<close> and
  \<open>Infinity\<close> are not represented. \<open>JObj kvs\<close> is the dict with the entries \<open>kvs\<close> in
  insertion order; a Python dict has each key once.
\<close>

datatype json =
    JNull
  | JBool bool
  | JNum rat
  | JStr string
  | JArr "json list"
  | JObj "(string \<times> json) list"

text \<open>Errors of the operating system (all of them subclasses of \<open>OSError\<close>).\<close>

datatype os_error =
    FileNotFoundError
  | PermissionError
  | FileExistsError
  | IsADirectoryError
  | NotADirectoryError
  | NoSpaceLeft

text \<open>
  What \<open>requests\<close> raises from \<open>session.get\<close>, \<open>raise_for_status\<close> and \<open>resp.json()\<close>:
  subclasses of \<open>RequestException\<close>, itself a subclass of \<open>IOError = OSError\<close>.
\<close>

datatype request_error =
    ConnectionError
  | Timeout
  | HTTPError nat
  | InvalidJSONError

datatype exn =
    KeyboardInterrupt
  | SystemExit
  | OSError os_error
  | RequestException request_error
  | JSONDecodeError
  | UnicodeDecodeError
  | ValueError
  | OverflowError
  | RecursionError
  | AttributeError
  | TypeError
  | RuntimeError string

text \<open>\<open>except Exception\<close> catches everything but the bare \<open>BaseException\<close>s.\<close>

fun is_Exception :: "exn \<Rightarrow> bool" where
  "is_Exception KeyboardInterrupt = False"
| "is_Exception SystemExit = False"
| "is_Exception _ = True"

fun is_OSError :: "exn \<Rightarrow> bool" where
  "is_OSError (OSError _) = True"
| "is_OSError (RequestException _) = True"
| "is_OSError _ = False"

text \<open>Python's truth value of a JSON value (\<open>if x:\<close>, \<open>x and y\<close>, \<open>x or y\<close>).\<close>

fun truthy :: "json \<Rightarrow> bool" where
  "truthy JNull = False"
| "truthy (JBool b) = b"
| "truthy (JNum n) = (n \<noteq> 0)"
| "truthy (JStr s) = (s \<noteq> [])"
| "truthy (JArr xs) = (xs \<noteq> [])"
| "truthy (JObj kvs) = (kvs \<noteq> [])"

text \<open>
  Python's \<open>==\<close> on JSON values: \<open>True == 1\<close> and \<open>1 == 1.0\<close>, a string equals only the
  same string, lists compare elementwise, dicts compare as sets of entries.
\<close>

fun py_eq :: "json \<Rightarrow> json \<Rightarrow> bool" where
  "py_eq JNull b = (b = JNull)"
| "py_eq (JBool x) b =
     (case b of JBool y \<Rightarrow> x = y | JNum n \<Rightarrow> n = of_bool x | _ \<Rightarrow> False)"
| "py_eq (JNum m) b =
     (case b of JBool y \<Rightarrow> m = of_bool y | JNum n \<Rightarrow> m = n | _ \<Rightarrow> False)"
| "py_eq (JStr s) b = (b = JStr s)"
| "py_eq (JArr xs) b = (case b of JArr ys \<Rightarrow> list_all2 py_eq xs ys | _ \<Rightarrow> False)"
| "py_eq (JObj kvs) b =
     (case b of
        JObj kvs' \<Rightarrow>
          length kvs = length kvs' \<and>
          list_all (\<lambda>(k, v). case map_of kvs' k of None \<Rightarrow> False | Some v' \<Rightarrow> py_eq v v') kvs
      | _ \<Rightarrow> False)"

text \<open>\<open>hash(x)\<close> raises \<open>TypeError\<close> for a list and for a dict.\<close>

fun hashable :: "json \<Rightarrow> bool" where
  "hashable (JArr _) = False"
| "hashable (JObj _) = False"
| "hashable _ = True"

text \<open>
  \<open>for i in x\<close>: a list gives its elements, a string its characters, a dict its keys;
  anything else is not iterable.
\<close>

fun py_iter :: "json \<Rightarrow> exn + json list" where
  "py_iter (JArr xs) = Inr xs"
| "py_iter (JStr s) = Inr (map (\<lambda>c. JStr [c]) s)"
| "py_iter (JObj kvs) = Inr (map (\<lambda>kv. JStr (fst kv)) kvs)"
| "py_iter _ = Inl TypeError"

text \<open>\<open>d.get(k, default)\<close> on the entries of a dict.\<close>

definition dget :: "(string \<times> json) list \<Rightarrow> string \<Rightarrow> json \<Rightarrow> json" where
  "dget d k dflt = (case map_of d k of None \<Rightarrow> dflt | Some v \<Rightarrow> v)"

text \<open>A list comprehension whose body may raise: the first exception ends it.\<close>

fun comprehension :: "('a \<Rightarrow> exn + 'b) \<Rightarrow> 'a list \<Rightarrow> exn + 'b list" where
  "comprehension f [] = Inr []"
| "comprehension f (x # xs) =
     (case f x of
        Inl e \<Rightarrow> Inl e
      | Inr y \<Rightarrow> (case comprehension f xs of Inl e \<Rightarrow> Inl e | Inr ys \<Rightarrow> Inr (y # ys)))"

text \<open>
  \<open>t in x\<close> for a string \<open>t\<close>: membership in a list, substring of a string, key of a
  dict; \<open>TypeError\<close> otherwise.
\<close>

fun is_substring :: "string \<Rightarrow> string \<Rightarrow> bool" where
  "is_substring t [] = (t = [])"
| "is_substring t (c # cs) = (take (length t) (c # cs) = t \<or> is_substring t cs)"

fun str_in :: "string \<Rightarrow> json \<Rightarrow> exn + bool" where
  "str_in t (JArr xs) = Inr (JStr t \<in> set xs)"
| "str_in t (JStr s) = Inr (is_substring t s)"
| "str_in t (JObj kvs) = Inr (t \<in> fst ` set kvs)"
| "str_in t _ = Inl TypeError"

section \<open>models.py\<close>

record FeedItem =
  source :: json
  item_id :: json
  headline :: json
  url :: json
  excerpt :: json
  published_at :: json
  updated_at :: json
  bucket :: string
  provenance :: json
  raw :: json

record Head =
  cursor :: json
  hash :: json
  changed :: json
  generated_at :: json
  ttl_sec :: json

record Feed =
  cursor :: json
  prev_cursor :: json
  source_id :: json
  generated_at :: json
  items :: "FeedItem list"
  new :: "FeedItem list"
  updated :: "FeedItem list"
  removed :: "FeedItem list"
  narrative :: json
  raw :: json

record SourceInfo =
  source_id :: json
  name :: json
  tags :: json
  description :: json
  homepage :: json
  enabled :: json
  status :: json
  head_url :: json
  latest_url :: json

text \<open>
  \<open>FeedItem.from_raw(data, bucket)\<close>. The first statement is \<open>data.get("content", {})\<close>,
  which raises \<open>AttributeError\<close> unless \<open>data\<close> is a dict. \<open>a or b\<close> is \<open>a\<close> when \<open>a\<close> is
  truthy and \<open>b\<close> otherwise.
\<close>

definition item_excerpt :: "json \<Rightarrow> json" where
  "item_excerpt content =
     (case content of
        JObj c \<Rightarrow>
          (if truthy (dget c ''excerpt_text'' (JStr ''''))
           then dget c ''excerpt_text'' (JStr '''')
           else dget c ''summary'' (JStr ''''))
      | JStr s \<Rightarrow> JStr s
      | _ \<Rightarrow> JStr '''')"

fun FeedItem_from_raw :: "json \<Rightarrow> string \<Rightarrow> exn + FeedItem" where
  "FeedItem_from_raw (JObj d) b =
     Inr \<lparr> source = dget d ''source'' (JStr ''''),
           item_id = dget d ''id'' (JStr ''''),
           headline = dget d ''headline'' (JStr ''''),
           url = dget d ''url'' (JStr ''''),
           excerpt = item_excerpt (dget d ''content'' (JObj [])),
           published_at = dget d ''published_at'' JNull,
           updated_at = dget d ''updated_at'' JNull,
           bucket = b,
           provenance = dget d ''provenance'' (JObj []),
           FeedItem.raw = JObj d \<rparr>"
| "FeedItem_from_raw _ b = Inl AttributeError"

fun Head_from_raw :: "json \<Rightarrow> exn + Head" where
  "Head_from_raw (JObj d) =
     Inr \<lparr> Head.cursor = dget d ''cursor'' (JStr ''''),
           hash = dget d ''hash'' (JStr ''''),
           changed = dget d ''changed'' (JBool False),
           Head.generated_at = dget d ''generated_at'' (JStr ''''),
           ttl_sec = dget d ''ttl_sec'' (JNum 900) \<rparr>"
| "Head_from_raw _ = Inl AttributeError"

text \<open>
  One section of \<open>Feed.from_raw\<close>:
  \<open>[FeedItem.from_raw(i, name) for i in buckets.get(name, [])]\<close>.
\<close>

definition section_items :: "(string \<times> json) list \<Rightarrow> string \<Rightarrow> exn + FeedItem list" where
  "section_items buckets nm =
     (case py_iter (dget buckets nm (JArr [])) of
        Inl e \<Rightarrow> Inl e
      | Inr raws \<Rightarrow> comprehension (\<lambda>i. FeedItem_from_raw i nm) raws)"

fun Feed_from_raw :: "json \<Rightarrow> exn + Feed" where
  "Feed_from_raw (JObj d) =
     (case dget d ''buckets'' (JObj []) of
        JObj buckets \<Rightarrow>
          (case section_items buckets ''new'' of
             Inl e \<Rightarrow> Inl e
           | Inr new_items \<Rightarrow>
          (case section_items buckets ''updated'' of
             Inl e \<Rightarrow> Inl e
           | Inr updated_items \<Rightarrow>
          (case section_items buckets ''removed'' of
             Inl e \<Rightarrow> Inl e
           | Inr removed_items \<Rightarrow>
               Inr \<lparr> Feed.cursor = dget d ''cursor'' (JStr ''''),
                     prev_cursor = dget d ''prev_cursor'' (JStr ''''),
                     Feed.source_id = dget d ''source_id'' (JStr ''''),
                     Feed.generated_at = dget d ''generated_at'' (JStr ''''),
                     items = new_items @ updated_items @ removed_items,
                     new = new_items,
                     updated = updated_items,
                     removed = removed_items,
                     narrative = dget d ''batch_narrative'' (JStr ''''),
                     Feed.raw = JObj d \<rparr>)))
      | _ \<Rightarrow> Inl AttributeError)"
| "Feed_from_raw _ = Inl AttributeError"

fun SourceInfo_from_raw :: "json \<Rightarrow> exn + SourceInfo" where
  "SourceInfo_from_raw (JObj d) =
     Inr \<lparr> SourceInfo.source_id = dget d ''source_id'' (JStr ''''),
           name = dget d ''name'' (JStr ''''),
           tags = dget d ''tags'' (JArr []),
           description = dget d ''description'' (JStr ''''),
           homepage = dget d ''homepage'' (JStr ''''),
           enabled = dget d ''enabled'' (JBool True),
           status = dget d ''status'' (JStr ''ok''),
           head_url = dget d ''head_url'' (JStr ''''),
           latest_url = dget d ''latest_url'' (JStr '''') \<rparr>"
| "SourceInfo_from_raw _ = Inl AttributeError"

section \<open>The file system and the environment\<close>

text \<open>
  A file is represented by what \<open>open(path, "r")\<close> followed by \<open>json.load\<close> makes of
  its bytes:
  \<^item> \<open>Undecodable\<close>: bytes that are not text in the locale's encoding; \<open>f.read()\<close> raises
    \<open>UnicodeDecodeError\<close>, a \<open>ValueError\<close> that is neither a \<open>JSONDecodeError\<close> nor an
    \<open>OSError\<close>;
  \<^item> \<open>Malformed\<close>: text that is not JSON (\<open>JSONDecodeError\<close>);
  \<^item> \<open>TooDeep\<close>: JSON text nested deeper than the interpreter's recursion limit
    (\<open>RecursionError\<close>);
  \<^item> \<open>TooLong\<close>: JSON text with an integer of more digits than the interpreter converts
    (\<open>ValueError\<close>);
  \<^item> \<open>Document v\<close>: the text of a JSON value, which \<open>json.load\<close> returns as \<open>v\<close>.

  \<open>json.dump(v, f)\<close> either raises (for a value beyond the same limits of the interpreter)
  or writes the text of \<open>v\<close>, which \<open>json.load\<close> reads back as \<open>v\<close>.
\<close>

datatype file_content =
    Undecodable
  | Malformed
  | TooDeep
  | TooLong
  | Document json

text \<open>
  The calls the store makes, and the \<open>OSError\<close> the operating system answers each with,
  if any (a missing permission, a directory in the way, a full disk). The fault of
  \<open>Makedirs d\<close> is that of creating \<open>d\<close> or one of its ancestors. \<open>dump_fault\<close> is what
  \<open>json.dump\<close> raises for a value, if anything (\<open>RecursionError\<close>, \<open>ValueError\<close>): the limits
  of the interpreter, which the store meets on the same calls.
\<close>

datatype fs_call =
    Makedirs string
  | OpenRead string
  | OpenWrite string
  | WriteClose string

record filesystem =
  files :: "string \<Rightarrow> file_content option"
  fault :: "fs_call \<Rightarrow> os_error option"
  dump_fault :: "json \<Rightarrow> exn option"

record environment =
  home :: string
  DD_CURSOR_PATH :: "string option"

text \<open>\<open>os.path.join(a, b)\<close> and \<open>os.path.dirname(p)\<close> of \<open>posixpath\<close>.\<close>

definition path_join :: "string \<Rightarrow> string \<Rightarrow> string" where
  "path_join a b =
     (if b \<noteq> [] \<and> hd b = CHR ''/'' then b
      else if a = [] \<or> last a = CHR ''/'' then a @ b
      else a @ ''/'' @ b)"

definition rstrip_slash :: "string \<Rightarrow> string" where
  "rstrip_slash s = rev (dropWhile (\<lambda>c. c = CHR ''/'') (rev s))"

definition dirname :: "string \<Rightarrow> string" where
  "dirname p =
     (let head = rev (dropWhile (\<lambda>c. c \<noteq> CHR ''/'') (rev p))
      in if head \<noteq> [] \<and> \<not> list_all (\<lambda>c. c = CHR ''/'') head then rstrip_slash head
         else head)"

text \<open>
  A path that holds the character NUL never reaches the operating system: \<open>open\<close> and
  \<open>os.mkdir\<close> raise \<open>ValueError\<close> (embedded null byte), which is not an \<open>OSError\<close>, and
  \<open>os.path.exists\<close> answers \<open>False\<close>.
\<close>

definition NUL :: char where
  "NUL = CHR 0x00"

definition os_path_exists :: "filesystem \<Rightarrow> string \<Rightarrow> bool" where
  "os_path_exists fs p = (NUL \<notin> set p \<and> files fs p \<noteq> None)"

text \<open>
  \<open>os.makedirs(d, exist_ok=True)\<close>: the empty path is never found; creating an ancestor
  can fail with an \<open>OSError\<close>; a name with a NUL is refused with \<open>ValueError\<close>.
\<close>

definition os_makedirs :: "filesystem \<Rightarrow> string \<Rightarrow> exn option" where
  "os_makedirs fs d =
     (if d = [] then Some (OSError FileNotFoundError)
      else (case fault fs (Makedirs d) of
              Some e \<Rightarrow> Some (OSError e)
            | None \<Rightarrow> if NUL \<in> set d then Some ValueError else None))"

text \<open>\<open>with open(p, "r") as f: data = json.load(f)\<close>.\<close>

definition read_json :: "filesystem \<Rightarrow> string \<Rightarrow> exn + json" where
  "read_json fs p =
     (if NUL \<in> set p then Inl ValueError
      else
        (case fault fs (OpenRead p) of
           Some e \<Rightarrow> Inl (OSError e)
         | None \<Rightarrow>
             (case files fs p of
                None \<Rightarrow> Inl (OSError FileNotFoundError)
              | Some Undecodable \<Rightarrow> Inl UnicodeDecodeError
              | Some Malformed \<Rightarrow> Inl JSONDecodeError
              | Some TooDeep \<Rightarrow> Inl RecursionError
              | Some TooLong \<Rightarrow> Inl ValueError
              | Some (Document v) \<Rightarrow> Inr v)))"

text \<open>
  \<open>with open(p, "w") as f: json.dump(v, f, indent=2)\<close>. Opening truncates the file, so
  a dump or a write that fails afterwards leaves a file that is not JSON.
\<close>

definition write_json :: "filesystem \<Rightarrow> string \<Rightarrow> json \<Rightarrow> exn option \<times> filesystem" where
  "write_json fs p v =
     (if NUL \<in> set p then (Some ValueError, fs)
      else
        (case fault fs (OpenWrite p) of
           Some e \<Rightarrow> (Some (OSError e), fs)
         | None \<Rightarrow>
             (case dump_fault fs v of
                Some e \<Rightarrow> (Some e, fs\<lparr>files := (files fs)(p \<mapsto> Malformed)\<rparr>)
              | None \<Rightarrow>
                  (case fault fs (WriteClose p) of
                     Some e \<Rightarrow> (Some (OSError e), fs\<lparr>files := (files fs)(p \<mapsto> Malformed)\<rparr>)
                   | None \<Rightarrow> (None, fs\<lparr>files := (files fs)(p \<mapsto> Document v)\<rparr>)))))"

section \<open>cursor.py\<close>

record CursorStore =
  path :: string
  cursors :: "(string \<times> json) list"

definition DEFAULT_CURSOR_FILE :: string where
  "DEFAULT_CURSOR_FILE = ''cursors.json''"

definition DEFAULT_CURSOR_DIR :: "environment \<Rightarrow> string" where
  "DEFAULT_CURSOR_DIR env = path_join (home env) ''.diffdelta''"

definition CursorStore_get :: "CursorStore \<Rightarrow> string \<Rightarrow> json option" where
  "CursorStore_get cs key = map_of (CursorStore.cursors cs) key"

text \<open>
  \<open>_load\<close>: the \<open>except (json.JSONDecodeError, OSError)\<close> clause resets the table;
  any other exception leaves \<open>_load\<close>, and so the constructor.
\<close>

definition CursorStore_load :: "CursorStore \<Rightarrow> filesystem \<Rightarrow> exn + CursorStore" where
  "CursorStore_load cs fs =
     (if os_path_exists fs (path cs) then
        (case read_json fs (path cs) of
           Inr data \<Rightarrow>
             (case data of
                JObj d \<Rightarrow> Inr (cs\<lparr>CursorStore.cursors := d\<rparr>)
              | _ \<Rightarrow> Inr cs)
         | Inl e \<Rightarrow>
             (if e = JSONDecodeError \<or> is_OSError e then Inr (cs\<lparr>CursorStore.cursors := []\<rparr>)
              else Inl e))
      else Inr cs)"

definition CursorStore_init :: "environment \<Rightarrow> filesystem \<Rightarrow> string option \<Rightarrow> exn + CursorStore" where
  "CursorStore_init env fs p =
     CursorStore_load
       \<lparr> path = (case p of
                   None \<Rightarrow> path_join (DEFAULT_CURSOR_DIR env) DEFAULT_CURSOR_FILE
                 | Some q \<Rightarrow> if q \<noteq> [] then q
                            else path_join (DEFAULT_CURSOR_DIR env) DEFAULT_CURSOR_FILE),
         CursorStore.cursors = [] \<rparr>
       fs"

text \<open>The body of the \<open>try\<close> in \<open>_save\<close>, and \<open>_save\<close> with its \<open>except OSError: pass\<close>.\<close>

definition save_body :: "CursorStore \<Rightarrow> filesystem \<Rightarrow> exn option \<times> filesystem" where
  "save_body cs fs =
     (case os_makedirs fs (dirname (path cs)) of
        Some e \<Rightarrow> (Some e, fs)
      | None \<Rightarrow> write_json fs (path cs) (JObj (CursorStore.cursors cs)))"

definition CursorStore_save :: "CursorStore \<Rightarrow> filesystem \<Rightarrow> exn option \<times> filesystem" where
  "CursorStore_save cs fs =
     (case save_body cs fs of
        (None, fs') \<Rightarrow> (None, fs')
      | (Some e, fs') \<Rightarrow> if is_OSError e then (None, fs') else (Some e, fs'))"

definition CursorStore_set ::
  "CursorStore \<Rightarrow> filesystem \<Rightarrow> string \<Rightarrow> json \<Rightarrow> exn option \<times> CursorStore \<times> filesystem" where
  "CursorStore_set cs fs key c =
     (let cs' = cs\<lparr>CursorStore.cursors := AList.update key c (CursorStore.cursors cs)\<rparr>
      in case CursorStore_save cs' fs of (r, fs') \<Rightarrow> (r, cs', fs'))"

text \<open>\<open>clear(key)\<close>: \<open>if key:\<close> is false for \<open>None\<close> and for the empty string.\<close>

definition CursorStore_clear ::
  "CursorStore \<Rightarrow> filesystem \<Rightarrow> string option \<Rightarrow> exn option \<times> CursorStore \<times> filesystem" where
  "CursorStore_clear cs fs key =
     (let cs' = (case key of
                   None \<Rightarrow> cs\<lparr>CursorStore.cursors := []\<rparr>
                 | Some k \<Rightarrow>
                     if k \<noteq> [] then cs\<lparr>CursorStore.cursors := AList.delete k (CursorStore.cursors cs)\<rparr>
                     else cs\<lparr>CursorStore.cursors := []\<rparr>)
      in case CursorStore_save cs' fs of (r, fs') \<Rightarrow> (r, cs', fs'))"

section \<open>client.py\<close>

text \<open>
  The object: \<open>_cursors\<close> is \<open>None\<close> when persistence is disabled;
  \<open>_source_tags_cache\<close> is \<open>None\<close> until the first tag filter needs it. The cache is a
  dict keyed by whatever the sources document gave as \<open>source_id\<close>.
\<close>

record DiffDelta =
  base_url :: string
  api_key :: "string option"
  timeout :: int
  cursors :: "CursorStore option"
  source_tags_cache :: "(json \<times> json) list option"

text \<open>
  The world outside the object: the URLs requested so far, the file system, what was
  printed, the items handed to the callback of \<open>watch\<close> and the lengths of its sleeps.
\<close>

datatype printed =
    Watching rat
  | PressCtrlC
  | Found nat
  | NoChanges
  | Stopped
  | ErrorRetrying exn rat

record world =
  net_log :: "string list"
  disk :: filesystem
  stdout :: "printed list"
  dispatched :: "FeedItem list"
  sleeps :: "rat list"

text \<open>
  The network: what the \<open>n\<close>-th request of the run returns when it is sent to a URL,
  the parsed body or the exception of \<open>session.get\<close>, \<open>raise_for_status\<close> or
  \<open>resp.json()\<close> (or an interrupt that arrives meanwhile).
\<close>

type_synonym network = "nat \<Rightarrow> string \<Rightarrow> exn + json"

definition DEFAULT_BASE_URL :: string where
  "DEFAULT_BASE_URL = ''https://diffdelta.io''"

definition DEFAULT_TIMEOUT :: int where
  "DEFAULT_TIMEOUT = 15"

definition DiffDelta_init ::
  "environment \<Rightarrow> filesystem \<Rightarrow> string \<Rightarrow> string option \<Rightarrow> string option \<Rightarrow> int \<Rightarrow> exn + DiffDelta" where
  "DiffDelta_init env fs b_url key cursor_path tmo =
     (case cursor_path of
        None \<Rightarrow>
          Inr \<lparr> base_url = rstrip_slash b_url, api_key = key, timeout = tmo,
                DiffDelta.cursors = None, source_tags_cache = None \<rparr>
      | Some p \<Rightarrow>
          (let resolved = (if p \<noteq> [] then p
                           else (case DD_CURSOR_PATH env of None \<Rightarrow> [] | Some q \<Rightarrow> q))
           in case CursorStore_init env fs (if resolved \<noteq> [] then Some resolved else None) of
                Inl e \<Rightarrow> Inl e
              | Inr cs \<Rightarrow>
                  Inr \<lparr> base_url = rstrip_slash b_url, api_key = key, timeout = tmo,
                        DiffDelta.cursors = Some cs, source_tags_cache = None \<rparr>))"

definition get_json :: "network \<Rightarrow> world \<Rightarrow> string \<Rightarrow> (exn + json) \<times> world" where
  "get_json net w u = (net (length (net_log w)) u, w\<lparr>net_log := net_log w @ [u]\<rparr>)"

definition head :: "network \<Rightarrow> DiffDelta \<Rightarrow> world \<Rightarrow> string option \<Rightarrow> (exn + Head) \<times> world" where
  "head net dd w u =
     (case get_json net w (case u of None \<Rightarrow> base_url dd @ ''/diff/head.json'' | Some v \<Rightarrow> v) of
        (Inl e, w') \<Rightarrow> (Inl e, w')
      | (Inr data, w') \<Rightarrow> (Head_from_raw data, w'))"

definition fetch_feed :: "network \<Rightarrow> DiffDelta \<Rightarrow> world \<Rightarrow> string option \<Rightarrow> (exn + Feed) \<times> world" where
  "fetch_feed net dd w u =
     (case get_json net w (case u of None \<Rightarrow> base_url dd @ ''/diff/latest.json'' | Some v \<Rightarrow> v) of
        (Inl e, w') \<Rightarrow> (Inl e, w')
      | (Inr data, w') \<Rightarrow> (Feed_from_raw data, w'))"

definition sources :: "network \<Rightarrow> DiffDelta \<Rightarrow> world \<Rightarrow> (exn + SourceInfo list) \<times> world" where
  "sources net dd w =
     (case get_json net w (base_url dd @ ''/diff/sources.json'') of
        (Inl e, w') \<Rightarrow> (Inl e, w')
      | (Inr data, w') \<Rightarrow>
          (case data of
             JObj d \<Rightarrow>
               (case py_iter (dget d ''sources'' (JArr [])) of
                  Inl e \<Rightarrow> (Inl e, w')
                | Inr ss \<Rightarrow> (comprehension SourceInfo_from_raw ss, w'))
           | _ \<Rightarrow> (Inl AttributeError, w')))"

text \<open>
  A dict with JSON keys: \<open>d[k] = v\<close> and \<open>d.get(k, default)\<close> hash the key first
  (\<open>TypeError\<close> for a list or a dict) and find an entry by \<open>==\<close>.
\<close>

fun pydict_update :: "json \<Rightarrow> json \<Rightarrow> (json \<times> json) list \<Rightarrow> (json \<times> json) list" where
  "pydict_update k v [] = [(k, v)]"
| "pydict_update k v (p # ps) =
     (if py_eq (fst p) k then (fst p, v) # ps else p # pydict_update k v ps)"

definition pydict_set :: "(json \<times> json) list \<Rightarrow> json \<Rightarrow> json \<Rightarrow> exn + (json \<times> json) list" where
  "pydict_set d k v = (if hashable k then Inr (pydict_update k v d) else Inl TypeError)"

definition pydict_get :: "(json \<times> json) list \<Rightarrow> json \<Rightarrow> json \<Rightarrow> exn + json" where
  "pydict_get d k dflt =
     (if hashable k
      then Inr (case find (\<lambda>p. py_eq (fst p) k) d of None \<Rightarrow> dflt | Some p \<Rightarrow> snd p)
      else Inl TypeError)"

text \<open>The dict comprehension \<open>{s.source_id: s.tags for s in all_sources}\<close>.\<close>

fun source_tags_of :: "SourceInfo list \<Rightarrow> (json \<times> json) list \<Rightarrow> exn + (json \<times> json) list" where
  "source_tags_of [] d = Inr d"
| "source_tags_of (s # ss) d =
     (case pydict_set d (SourceInfo.source_id s) (tags s) of
        Inl e \<Rightarrow> Inl e
      | Inr d' \<Rightarrow> source_tags_of ss d')"

text \<open>
  \<open>_get_source_tags\<close>: the body of its \<open>try\<close>, then the method. \<open>except Exception\<close> stores
  the empty dict; an interrupt passes through and stores nothing.
\<close>

definition fetch_source_tags ::
  "network \<Rightarrow> DiffDelta \<Rightarrow> world \<Rightarrow> (exn + (json \<times> json) list) \<times> world" where
  "fetch_source_tags net dd w =
     (case sources net dd w of
        (Inl e, w') \<Rightarrow> (Inl e, w')
      | (Inr all_sources, w') \<Rightarrow> (source_tags_of all_sources [], w'))"

definition get_source_tags ::
  "network \<Rightarrow> DiffDelta \<Rightarrow> world \<Rightarrow> (exn + (json \<times> json) list) \<times> DiffDelta \<times> world" where
  "get_source_tags net dd w =
     (case source_tags_cache dd of
        Some t \<Rightarrow> (Inr t, dd, w)
      | None \<Rightarrow>
          (case fetch_source_tags net dd w of
             (Inr t, w') \<Rightarrow> (Inr t, dd\<lparr>source_tags_cache := Some t\<rparr>, w')
           | (Inl e, w') \<Rightarrow>
               (if is_Exception e then (Inr [], dd\<lparr>source_tags_cache := Some []\<rparr>, w')
                else (Inl e, dd, w'))))"

text \<open>\<open>any(t in item_tags for t in tags)\<close>: stops at the first hit or exception.\<close>

fun any_in :: "string list \<Rightarrow> json \<Rightarrow> exn + bool" where
  "any_in [] x = Inr False"
| "any_in (t # ts) x =
     (case str_in t x of
        Inl e \<Rightarrow> Inl e
      | Inr found \<Rightarrow> if found then Inr True else any_in ts x)"

text \<open>An optional list argument used as a condition: \<open>None\<close> and \<open>[]\<close> are false.\<close>

fun given :: "string list option \<Rightarrow> bool" where
  "given None = False"
| "given (Some xs) = (xs \<noteq> [])"

text \<open>
  Step 5 of \<open>_poll_feed\<close>, the loop over \<open>feed.items\<close>; \<open>acc\<close> is the list \<open>items\<close>
  being appended to. \<open>x in sources\<close> compares \<open>x\<close> with each element by \<open>==\<close>.
\<close>

fun filter_loop ::
  "network \<Rightarrow> string list option \<Rightarrow> string list option \<Rightarrow> string list \<Rightarrow>
   FeedItem list \<Rightarrow> FeedItem list \<Rightarrow> DiffDelta \<Rightarrow> world \<Rightarrow>
   (exn + FeedItem list) \<times> DiffDelta \<times> world" where
  "filter_loop net tgs srcs buckets [] acc dd w = (Inr acc, dd, w)"
| "filter_loop net tgs srcs buckets (item # rest) acc dd w =
     (if bucket item \<notin> set buckets then filter_loop net tgs srcs buckets rest acc dd w
      else if given srcs \<and> \<not> list_ex (\<lambda>s. py_eq (JStr s) (source item)) (the srcs)
        then filter_loop net tgs srcs buckets rest acc dd w
      else if given tgs then
        (case get_source_tags net dd w of
           (Inl e, dd', w') \<Rightarrow> (Inl e, dd', w')
         | (Inr source_tags, dd', w') \<Rightarrow>
             (case pydict_get source_tags (source item) (JArr []) of
                Inl e \<Rightarrow> (Inl e, dd', w')
              | Inr item_tags \<Rightarrow>
                  (case any_in (the tgs) item_tags of
                     Inl e \<Rightarrow> (Inl e, dd', w')
                   | Inr hit \<Rightarrow>
                       if hit then filter_loop net tgs srcs buckets rest (acc @ [item]) dd' w'
                       else filter_loop net tgs srcs buckets rest acc dd' w')))
      else filter_loop net tgs srcs buckets rest (acc @ [item]) dd w)"

text \<open>
  Step 2 of \<open>_poll_feed\<close>: \<open>self._cursors.get(cursor_key) if self._cursors else None\<close>.
  A missing key and a stored \<open>null\<close> are both Python's \<open>None\<close>.
\<close>

definition stored_cursor :: "DiffDelta \<Rightarrow> string \<Rightarrow> json" where
  "stored_cursor dd cursor_key =
     (case DiffDelta.cursors dd of
        None \<Rightarrow> JNull
      | Some cs \<Rightarrow> (case CursorStore_get cs cursor_key of None \<Rightarrow> JNull | Some c \<Rightarrow> c))"

text \<open>
  Step 4: \<open>if self._cursors and feed.cursor: self._cursors.set(cursor_key, feed.cursor)\<close>.
\<close>

definition save_cursor ::
  "DiffDelta \<Rightarrow> world \<Rightarrow> string \<Rightarrow> Feed \<Rightarrow> exn option \<times> DiffDelta \<times> world" where
  "save_cursor dd w cursor_key feed =
     (case DiffDelta.cursors dd of
        None \<Rightarrow> (None, dd, w)
      | Some cs \<Rightarrow>
          (if truthy (Feed.cursor feed) then
             (case CursorStore_set cs (disk w) cursor_key (Feed.cursor feed) of
                (r, cs', fs') \<Rightarrow> (r, dd\<lparr>DiffDelta.cursors := Some cs'\<rparr>, w\<lparr>disk := fs'\<rparr>))
           else (None, dd, w)))"

definition poll_feed ::
  "network \<Rightarrow> DiffDelta \<Rightarrow> world \<Rightarrow> string \<Rightarrow> string \<Rightarrow> string \<Rightarrow>
   string list option \<Rightarrow> string list option \<Rightarrow> string list \<Rightarrow>
   (exn + FeedItem list) \<times> DiffDelta \<times> world" where
  "poll_feed net dd w head_u latest_u cursor_key tgs srcs buckets =
     (case head net dd w (Some head_u) of
        (Inl e, w1) \<Rightarrow> (Inl e, dd, w1)
      | (Inr h, w1) \<Rightarrow>
          (if truthy (stored_cursor dd cursor_key) \<and>
              py_eq (stored_cursor dd cursor_key) (Head.cursor h)
           then (Inr [], dd, w1)
           else
             (case fetch_feed net dd w1 (Some latest_u) of
                (Inl e, w2) \<Rightarrow> (Inl e, dd, w2)
              | (Inr feed, w2) \<Rightarrow>
                  (case save_cursor dd w2 cursor_key feed of
                     (Some e, dd3, w3) \<Rightarrow> (Inl e, dd3, w3)
                   | (None, dd3, w3) \<Rightarrow>
                       filter_loop net tgs srcs buckets (items feed) [] dd3 w3))))"

definition default_buckets :: "string list option \<Rightarrow> string list" where
  "default_buckets buckets = (case buckets of None \<Rightarrow> [''new'', ''updated''] | Some bs \<Rightarrow> bs)"

definition poll ::
  "network \<Rightarrow> DiffDelta \<Rightarrow> world \<Rightarrow> string list option \<Rightarrow> string list option \<Rightarrow>
   string list option \<Rightarrow> (exn + FeedItem list) \<times> DiffDelta \<times> world" where
  "poll net dd w tgs srcs buckets =
     poll_feed net dd w
       (base_url dd @ ''/diff/head.json'')
       (base_url dd @ ''/diff/latest.json'')
       ''global'' tgs srcs (default_buckets buckets)"

definition poll_source ::
  "network \<Rightarrow> DiffDelta \<Rightarrow> world \<Rightarrow> string \<Rightarrow> string list option \<Rightarrow>
   (exn + FeedItem list) \<times> DiffDelta \<times> world" where
  "poll_source net dd w sid buckets =
     poll_feed net dd w
       (base_url dd @ ''/diff/source/'' @ sid @ ''/head.json'')
       (base_url dd @ ''/diff/source/'' @ sid @ ''/latest.json'')
       (''source:'' @ sid) None None (default_buckets buckets)"

definition reset_cursors ::
  "DiffDelta \<Rightarrow> world \<Rightarrow> string option \<Rightarrow> exn option \<times> DiffDelta \<times> world" where
  "reset_cursors dd w sid =
     (case DiffDelta.cursors dd of
        None \<Rightarrow> (None, dd, w)
      | Some cs \<Rightarrow>
          (case CursorStore_clear cs (disk w)
                  (case sid of
                     None \<Rightarrow> None
                   | Some s \<Rightarrow> if s \<noteq> [] then Some (''source:'' @ s) else None) of
             (r, cs', fs') \<Rightarrow> (r, dd\<lparr>DiffDelta.cursors := Some cs'\<rparr>, w\<lparr>disk := fs'\<rparr>)))"

subsection \<open>watch\<close>

text \<open>
  The callback is any Python function: it sees the item, may change a state of its own
  and may raise. Interrupts during a sleep are given by the index of the sleep.
  \<open>time.sleep\<close> first converts the length to nanoseconds in 64 bits (\<open>OverflowError\<close> when
  it does not fit) and then refuses a negative length with \<open>ValueError\<close>. Standard output
  is taken to accept every line.
\<close>

type_synonym 'h callback = "'h \<Rightarrow> FeedItem \<Rightarrow> exn option \<times> 'h"

type_synonym signals = "nat \<Rightarrow> bool"

definition print :: "printed \<Rightarrow> world \<Rightarrow> world" where
  "print line w = w\<lparr>stdout := stdout w @ [line]\<rparr>"

definition time_sleep :: "signals \<Rightarrow> world \<Rightarrow> rat \<Rightarrow> exn option \<times> world" where
  "time_sleep sig w secs =
     (if secs * 10 ^ 9 \<ge> 2 ^ 63 \<or> secs * 10 ^ 9 < - (2 ^ 63) then (Some OverflowError, w)
      else if secs < 0 then (Some ValueError, w)
      else if sig (length (sleeps w)) then (Some KeyboardInterrupt, w\<lparr>sleeps := sleeps w @ [secs]\<rparr>)
      else (None, w\<lparr>sleeps := sleeps w @ [secs]\<rparr>))"

text \<open>\<open>for item in items: callback(item)\<close>: an exception of the callback leaves the loop.\<close>

fun dispatch :: "'h callback \<Rightarrow> FeedItem list \<Rightarrow> 'h \<Rightarrow> world \<Rightarrow> exn option \<times> 'h \<times> world" where
  "dispatch cb [] h w = (None, h, w)"
| "dispatch cb (item # rest) h w =
     (case cb h item of
        (Some e, h') \<Rightarrow> (Some e, h', w\<lparr>dispatched := dispatched w @ [item]\<rparr>)
      | (None, h') \<Rightarrow> dispatch cb rest h' (w\<lparr>dispatched := dispatched w @ [item]\<rparr>))"

text \<open>
  \<open>max(h.ttl_sec, 60)\<close>: \<open>60 > ttl_sec\<close> is defined for numbers and booleans only.
\<close>

fun max_60 :: "json \<Rightarrow> exn + rat" where
  "max_60 (JNum n) = Inr (if 60 > n then 60 else n)"
| "max_60 (JBool b) = Inr 60"
| "max_60 _ = Inl TypeError"

definition watch_interval ::
  "network \<Rightarrow> DiffDelta \<Rightarrow> world \<Rightarrow> rat option \<Rightarrow> (exn + rat) \<times> world" where
  "watch_interval net dd w interval =
     (case interval of
        Some i \<Rightarrow> (Inr i, w)
      | None \<Rightarrow>
          (case head net dd w None of
             (Inl e, w') \<Rightarrow> if is_Exception e then (Inr 900, w') else (Inl e, w')
           | (Inr h, w') \<Rightarrow>
               (case max_60 (ttl_sec h) of
                  Inl e \<Rightarrow> if is_Exception e then (Inr 900, w') else (Inl e, w')
                | Inr i \<Rightarrow> (Inr i, w'))))"

text \<open>
  One pass of the \<open>while True\<close> loop. \<open>watch_body\<close> is the body of the first \<open>try\<close>,
  \<open>watch_try\<close> adds its two \<open>except\<close> clauses: what the loop does next is to go on to the
  sleep, to \<open>break\<close>, or to let an exception out of \<open>watch\<close>.
\<close>

datatype flow = Continue | Break | Raise exn

definition watch_body ::
  "network \<Rightarrow> 'h callback \<Rightarrow> string list option \<Rightarrow> string list option \<Rightarrow> string list \<Rightarrow>
   DiffDelta \<Rightarrow> world \<Rightarrow> 'h \<Rightarrow> exn option \<times> DiffDelta \<times> world \<times> 'h" where
  "watch_body net cb tgs srcs buckets dd w h =
     (case poll net dd w tgs srcs (Some buckets) of
        (Inl e, dd', w') \<Rightarrow> (Some e, dd', w', h)
      | (Inr its, dd', w') \<Rightarrow>
          (if its \<noteq> [] then
             (case dispatch cb its h (print (Found (length its)) w') of
                (r, h', w'') \<Rightarrow> (r, dd', w'', h'))
           else (None, dd', print NoChanges w', h)))"

definition watch_try ::
  "network \<Rightarrow> 'h callback \<Rightarrow> string list option \<Rightarrow> string list option \<Rightarrow> string list \<Rightarrow>
   rat \<Rightarrow> DiffDelta \<Rightarrow> world \<Rightarrow> 'h \<Rightarrow> flow \<times> DiffDelta \<times> world \<times> 'h" where
  "watch_try net cb tgs srcs buckets interval dd w h =
     (case watch_body net cb tgs srcs buckets dd w h of
        (None, dd', w', h') \<Rightarrow> (Continue, dd', w', h')
      | (Some e, dd', w', h') \<Rightarrow>
          (if e = KeyboardInterrupt then (Break, dd', print Stopped w', h')
           else if is_Exception e then (Continue, dd', print (ErrorRetrying e interval) w', h')
           else (Raise e, dd', w', h')))"

text \<open>
  The loop, followed for at most \<open>n\<close> passes. \<open>Continue\<close> as the result says that the
  loop is still running after \<open>n\<close> passes; \<open>Break\<close> that \<open>watch\<close> has returned;
  \<open>Raise e\<close> that \<open>e\<close> has left \<open>watch\<close>.
\<close>

fun watch_loop ::
  "nat \<Rightarrow> network \<Rightarrow> signals \<Rightarrow> 'h callback \<Rightarrow> string list option \<Rightarrow> string list option \<Rightarrow>
   string list \<Rightarrow> rat \<Rightarrow> DiffDelta \<Rightarrow> world \<Rightarrow> 'h \<Rightarrow> flow \<times> DiffDelta \<times> world \<times> 'h" where
  "watch_loop 0 net sig cb tgs srcs buckets interval dd w h = (Continue, dd, w, h)"
| "watch_loop (Suc n) net sig cb tgs srcs buckets interval dd w h =
     (case watch_try net cb tgs srcs buckets interval dd w h of
        (Continue, dd', w', h') \<Rightarrow>
          (case time_sleep sig w' interval of
             (None, w'') \<Rightarrow> watch_loop n net sig cb tgs srcs buckets interval dd' w'' h'
           | (Some e, w'') \<Rightarrow>
               if e = KeyboardInterrupt then (Break, dd', print Stopped w'', h')
               else (Raise e, dd', w'', h'))
      | (Break, dd', w', h') \<Rightarrow> (Break, dd', w', h')
      | (Raise e, dd', w', h') \<Rightarrow> (Raise e, dd', w', h'))"

definition watch ::
  "nat \<Rightarrow> network \<Rightarrow> signals \<Rightarrow> 'h callback \<Rightarrow> string list option \<Rightarrow> string list option \<Rightarrow>
   rat option \<Rightarrow> string list option \<Rightarrow> DiffDelta \<Rightarrow> world \<Rightarrow> 'h \<Rightarrow>
   flow \<times> DiffDelta \<times> world \<times> 'h" where
  "watch n net sig cb tgs srcs interval buckets dd w h =
     (case watch_interval net dd w interval of
        (Inl e, w') \<Rightarrow> (Raise e, dd, w', h)
      | (Inr i, w') \<Rightarrow>
          watch_loop n net sig cb tgs srcs (default_buckets buckets) i dd
            (print PressCtrlC (print (Watching i) w')) h)"

subsection \<open>The filter of \<open>_poll_feed\<close>, item by item\<close>

text \<open>
  The three tests of step 5 as the loop makes them: the tag test of one item against the
  source-to-tags dict (it can raise), the bucket and source tests, and all of them.
\<close>

definition item_hit :: "(json \<times> json) list \<Rightarrow> string list \<Rightarrow> FeedItem \<Rightarrow> exn + bool" where
  "item_hit source_tags tgs item =
     (case pydict_get source_tags (source item) (JArr []) of
        Inl e \<Rightarrow> Inl e
      | Inr item_tags \<Rightarrow> any_in tgs item_tags)"

definition passes :: "string list option \<Rightarrow> string list \<Rightarrow> FeedItem \<Rightarrow> bool" where
  "passes srcs buckets item =
     (bucket item \<in> set buckets \<and> (given srcs \<longrightarrow> source item \<in> JStr ` set (the srcs)))"

definition keeps ::
  "(json \<times> json) list \<Rightarrow> string list option \<Rightarrow> string list option \<Rightarrow> string list \<Rightarrow>
   FeedItem \<Rightarrow> bool" where
  "keeps source_tags tgs srcs buckets item =
     (passes srcs buckets item \<and>
      (given tgs \<longrightarrow> item_hit source_tags (the tgs) item = Inr True))"

text \<open>
  The filter as the claim words it, for comparison: only an absent filter lets every
  item pass.
\<close>

definition keeps_as_claimed ::
  "(json \<times> json) list \<Rightarrow> string list option \<Rightarrow> string list option \<Rightarrow> string list \<Rightarrow>
   FeedItem \<Rightarrow> bool" where
  "keeps_as_claimed source_tags tgs srcs buckets item =
     (bucket item \<in> set buckets \<and>
      (srcs = None \<or> source item \<in> JStr ` set (the srcs)) \<and>
      (tgs = None \<or> item_hit source_tags (the tgs) item = Inr True))"

subsection \<open>The cursors a run has fetched\<close>

text \<open>
  The feed that request \<open>i\<close> of the log fetched from the URL \<open>u\<close>: the request went to
  \<open>u\<close>, the network answered it with a document and \<open>Feed.from_raw\<close> accepted it. The
  cursors of the feeds fetched from \<open>u\<close> by the requests made between two states of the
  world, in the order of the requests.
\<close>

definition fetched_feed :: "network \<Rightarrow> world \<Rightarrow> nat \<Rightarrow> string \<Rightarrow> Feed option" where
  "fetched_feed net w i u =
     (if i < length (net_log w) \<and> net_log w ! i = u
      then (case net i u of
              Inl e \<Rightarrow> None
            | Inr doc \<Rightarrow> (case Feed_from_raw doc of Inl e \<Rightarrow> None | Inr feed \<Rightarrow> Some feed))
      else None)"

definition fetched_cursors :: "network \<Rightarrow> world \<Rightarrow> world \<Rightarrow> string \<Rightarrow> json list" where
  "fetched_cursors net w w' u =
     concat (map (\<lambda>i. case fetched_feed net w' i u of
                             None \<Rightarrow> []
                           | Some feed \<Rightarrow> [Feed.cursor feed])
               [length (net_log w)..<length (net_log w')])"

text \<open>
  What an operation may do to the stored cursor of a key \<open>k\<close>: keep it, or, when \<open>k\<close> is
  the key of the operation, replace it by the non-empty cursor of a feed that the
  operation fetched from the URL \<open>u\<close>.
\<close>

definition cursor_kept_or_fetched ::
  "network \<Rightarrow> DiffDelta \<Rightarrow> world \<Rightarrow> DiffDelta \<Rightarrow> world \<Rightarrow> string \<Rightarrow> string \<Rightarrow> string \<Rightarrow> bool" where
  "cursor_kept_or_fetched net dd w dd' w' cursor_key u k =
     (stored_cursor dd' k = stored_cursor dd k \<or>
      (k = cursor_key \<and> truthy (stored_cursor dd' k) \<and>
       stored_cursor dd' k \<in> set (fetched_cursors net w w' u)))"

section \<open>Concrete documents and runs\<close>

text \<open>
  A feed document whose raw records carry a \<open>bucket\<close> field of their own, and whose
  sections stand in another order than \<open>new\<close>, \<open>updated\<close>, \<open>removed\<close>.
\<close>

definition feed_doc_sections :: "(string \<times> json) list" where
  "feed_doc_sections =
     [(''cursor'', JStr ''c2''),
      (''buckets'', JObj
         [(''removed'', JArr [JObj [(''id'', JStr ''z''), (''bucket'', JStr ''new'')]]),
          (''new'', JArr [JObj [(''id'', JStr ''a''), (''bucket'', JStr ''removed'')],
                         JObj [(''id'', JStr ''b'')]])])]"

text \<open>
  A user's cursor file at the default place, and file systems in which it is missing,
  holds bytes that are not text, or cannot be opened for writing.
\<close>

definition cursor_file :: string where
  "cursor_file = ''/home/bot/.diffdelta/cursors.json''"

definition env_bot :: environment where
  "env_bot = \<lparr> home = ''/home/bot'', DD_CURSOR_PATH = None \<rparr>"

definition fs_empty :: filesystem where
  "fs_empty = \<lparr> files = (\<lambda>p. None), fault = (\<lambda>c. None), dump_fault = (\<lambda>v. None) \<rparr>"

definition fs_undecodable :: filesystem where
  "fs_undecodable =
     \<lparr> files = (\<lambda>p. if p = cursor_file then Some Undecodable else None),
       fault = (\<lambda>c. None), dump_fault = (\<lambda>v. None) \<rparr>"

definition fs_readonly :: filesystem where
  "fs_readonly =
     \<lparr> files = (\<lambda>p. if p = cursor_file
                      then Some (Document (JObj [(''global'', JStr ''c1'')])) else None),
       fault = (\<lambda>c. if c = OpenWrite cursor_file then Some PermissionError else None),
       dump_fault = (\<lambda>v. None) \<rparr>"

definition store_new :: CursorStore where
  "store_new = \<lparr> path = cursor_file, CursorStore.cursors = [] \<rparr>"

definition store_c1 :: CursorStore where
  "store_c1 = \<lparr> path = cursor_file, CursorStore.cursors = [(''global'', JStr ''c1'')] \<rparr>"

text \<open>
  A server with one global feed: the head and the feed carry the cursor \<open>c\<close>, the feed
  has the items A (new, src1), B (updated, src2) and C (removed, src1), and the sources
  document tags src1 with security and src2 with finance. A client at the default base
  URL whose store holds a given table, and the world before any request.
\<close>

definition head_json_url :: string where
  "head_json_url = ''https://diffdelta.io/diff/head.json''"

definition latest_json_url :: string where
  "latest_json_url = ''https://diffdelta.io/diff/latest.json''"

definition sources_json_url :: string where
  "sources_json_url = ''https://diffdelta.io/diff/sources.json''"

definition raw_item :: "string \<Rightarrow> string \<Rightarrow> json" where
  "raw_item src i = JObj [(''source'', JStr src), (''id'', JStr i)]"

definition mk_item :: "string \<Rightarrow> string \<Rightarrow> string \<Rightarrow> FeedItem" where
  "mk_item src i b =
     \<lparr> source = JStr src, item_id = JStr i, headline = JStr [], url = JStr [],
       excerpt = JStr [], published_at = JNull, updated_at = JNull, bucket = b,
       provenance = JObj [], FeedItem.raw = raw_item src i \<rparr>"

definition feed_doc_abc :: "string \<Rightarrow> json" where
  "feed_doc_abc c =
     JObj [(''cursor'', JStr c),
           (''buckets'', JObj
              [(''new'', JArr [raw_item ''src1'' ''A'']),
               (''updated'', JArr [raw_item ''src2'' ''B'']),
               (''removed'', JArr [raw_item ''src1'' ''C''])])]"

definition feed_abc :: "string \<Rightarrow> Feed" where
  "feed_abc c =
     \<lparr> Feed.cursor = JStr c, prev_cursor = JStr [], Feed.source_id = JStr [],
       Feed.generated_at = JStr [],
       items = [mk_item ''src1'' ''A'' ''new'', mk_item ''src2'' ''B'' ''updated'',
                mk_item ''src1'' ''C'' ''removed''],
       new = [mk_item ''src1'' ''A'' ''new''],
       updated = [mk_item ''src2'' ''B'' ''updated''],
       removed = [mk_item ''src1'' ''C'' ''removed''],
       narrative = JStr [], Feed.raw = feed_doc_abc c \<rparr>"

definition head_of :: "string \<Rightarrow> Head" where
  "head_of c =
     \<lparr> Head.cursor = JStr c, hash = JStr [], changed = JBool False,
       Head.generated_at = JStr [], ttl_sec = JNum 900 \<rparr>"

definition sources_doc :: json where
  "sources_doc =
     JObj [(''sources'', JArr
        [JObj [(''source_id'', JStr ''src1''), (''tags'', JArr [JStr ''security''])],
         JObj [(''source_id'', JStr ''src2''), (''tags'', JArr [JStr ''finance''])]])]"

definition server :: "string \<Rightarrow> network" where
  "server c n u =
     (if u = head_json_url then Inr (JObj [(''cursor'', JStr c)])
      else if u = latest_json_url then Inr (feed_doc_abc c)
      else if u = sources_json_url then Inr sources_doc
      else Inl (RequestException (HTTPError 404)))"

definition client :: "(string \<times> json) list \<Rightarrow> DiffDelta" where
  "client table =
     \<lparr> base_url = DEFAULT_BASE_URL, api_key = None, timeout = DEFAULT_TIMEOUT,
       DiffDelta.cursors = Some \<lparr> path = cursor_file, CursorStore.cursors = table \<rparr>,
       source_tags_cache = None \<rparr>"

definition world0 :: world where
  "world0 = \<lparr> net_log = [], disk = fs_empty, stdout = [], dispatched = [], sleeps = [] \<rparr>"

definition tags_table :: "(json \<times> json) list" where
  "tags_table =
     [(JStr ''src1'', JArr [JStr ''security'']), (JStr ''src2'', JArr [JStr ''finance''])]"

text \<open>
  A callback that raises for the item with a given id and returns for every other one,
  and a run without interrupts.
\<close>

definition fail_on :: "json \<Rightarrow> unit callback" where
  "fail_on i h item =
     (if item_id item = i then (Some (RuntimeError ''handler failed''), h) else (None, h))"

definition never :: signals where
  "never n = False"


text \<open>A server that has the feed of one source only.\<close>

definition source_server :: "string \<Rightarrow> string \<Rightarrow> network" where
  "source_server sid c n u =
     (if u = DEFAULT_BASE_URL @ ''/diff/source/'' @ sid @ ''/head.json''
        then Inr (JObj [(''cursor'', JStr c)])
      else if u = DEFAULT_BASE_URL @ ''/diff/source/'' @ sid @ ''/latest.json''
        then Inr (feed_doc_abc c)
      else Inl (RequestException (HTTPError 404)))"

section \<open>Properties of \<open>Feed.from_raw\<close>\<close>

lemma comprehension_from_raw:
  "\<exists>its. comprehension (\<lambda>i. FeedItem_from_raw i nm) (map JObj rs) = Inr its \<and>
         map Inr its = map (\<lambda>r. FeedItem_from_raw (JObj r) nm) rs \<and>
         map bucket its = replicate (length rs) nm \<and>
         map FeedItem.raw its = map JObj rs"
  by (induction rs) auto

lemma section_items_objects:
  assumes "dget bs nm (JArr []) = JArr (map JObj rs)"
  shows "\<exists>its. section_items bs nm = Inr its \<and>
           map Inr its = map (\<lambda>r. FeedItem_from_raw (JObj r) nm) rs \<and>
           map bucket its = replicate (length rs) nm \<and>
           map FeedItem.raw its = map JObj rs"
  using assms comprehension_from_raw[of nm rs] by (simp add: section_items_def)

text \<open>
  C6. For a feed document (an object whose \<open>buckets\<close>, when given, is an object, and
  whose sections \<open>new\<close>, \<open>updated\<close> and \<open>removed\<close>, when given, are arrays of objects)
  \<open>Feed.from_raw\<close> returns a feed. Its \<open>items\<close> are its \<open>new\<close>, \<open>updated\<close> and \<open>removed\<close>
  items concatenated in that order; each of the three lists is \<open>FeedItem.from_raw\<close> of
  the records of its section in the order of the document; and the \<open>bucket\<close> of every
  item is the name of its section, whatever the raw record holds.
\<close>

theorem Feed_from_raw_items:
  assumes "dget d ''buckets'' (JObj []) = JObj bs"
    and "dget bs ''new'' (JArr []) = JArr (map JObj ns)"
    and "dget bs ''updated'' (JArr []) = JArr (map JObj us)"
    and "dget bs ''removed'' (JArr []) = JArr (map JObj rs)"
  shows "\<exists>feed. Feed_from_raw (JObj d) = Inr feed \<and>
           items feed = new feed @ updated feed @ removed feed \<and>
           map Inr (new feed) = map (\<lambda>r. FeedItem_from_raw (JObj r) ''new'') ns \<and>
           map Inr (updated feed) = map (\<lambda>r. FeedItem_from_raw (JObj r) ''updated'') us \<and>
           map Inr (removed feed) = map (\<lambda>r. FeedItem_from_raw (JObj r) ''removed'') rs \<and>
           map FeedItem.raw (items feed) = map JObj (ns @ us @ rs) \<and>
           map bucket (items feed) =
             replicate (length ns) ''new'' @ replicate (length us) ''updated'' @
             replicate (length rs) ''removed''"
proof -
  from section_items_objects[OF assms(2)] obtain n where
    n: "section_items bs ''new'' = Inr n"
       "map Inr n = map (\<lambda>r. FeedItem_from_raw (JObj r) ''new'') ns"
       "map bucket n = replicate (length ns) ''new''"
       "map FeedItem.raw n = map JObj ns"
    by blast
  from section_items_objects[OF assms(3)] obtain u where
    u: "section_items bs ''updated'' = Inr u"
       "map Inr u = map (\<lambda>r. FeedItem_from_raw (JObj r) ''updated'') us"
       "map bucket u = replicate (length us) ''updated''"
       "map FeedItem.raw u = map JObj us"
    by blast
  from section_items_objects[OF assms(4)] obtain r where
    r: "section_items bs ''removed'' = Inr r"
       "map Inr r = map (\<lambda>r. FeedItem_from_raw (JObj r) ''removed'') rs"
       "map bucket r = replicate (length rs) ''removed''"
       "map FeedItem.raw r = map JObj rs"
    by blast
  show ?thesis
    using assms(1) n u r by simp
qed

theorem Feed_from_raw_items_witness:
  "\<exists>feed. Feed_from_raw (JObj feed_doc_sections) = Inr feed \<and>
      map item_id (items feed) = [JStr ''a'', JStr ''b'', JStr ''z''] \<and>
      map bucket (items feed) = [''new'', ''new'', ''removed'']"
proof -
  define bs where "bs =
         [(''removed'', JArr [JObj [(''id'', JStr ''z''), (''bucket'', JStr ''new'')]]),
          (''new'', JArr [JObj [(''id'', JStr ''a''), (''bucket'', JStr ''removed'')],
                         JObj [(''id'', JStr ''b'')]])]"
  have 1: "dget feed_doc_sections ''buckets'' (JObj []) = JObj bs"
    by (simp add: feed_doc_sections_def dget_def bs_def)
  have 2: "dget bs ''new'' (JArr []) =
      JArr (map JObj [[(''id'', JStr ''a''), (''bucket'', JStr ''removed'')], [(''id'', JStr ''b'')]])"
    by (simp add: dget_def bs_def)
  have 3: "dget bs ''updated'' (JArr []) = JArr (map JObj [])"
    by (simp add: dget_def bs_def)
  have 4: "dget bs ''removed'' (JArr []) =
      JArr (map JObj [[(''id'', JStr ''z''), (''bucket'', JStr ''new'')]])"
    by (simp add: dget_def bs_def)
  from Feed_from_raw_items[OF 1 2 3 4] obtain feed where
    f: "Feed_from_raw (JObj feed_doc_sections) = Inr feed"
       "items feed = new feed @ updated feed @ removed feed"
       "map Inr (new feed) = map (\<lambda>r. FeedItem_from_raw (JObj r) ''new'')
           [[(''id'', JStr ''a''), (''bucket'', JStr ''removed'')], [(''id'', JStr ''b'')]]"
       "map Inr (updated feed) = map (\<lambda>r. FeedItem_from_raw (JObj r) ''updated'') []"
       "map Inr (removed feed) = map (\<lambda>r. FeedItem_from_raw (JObj r) ''removed'')
           [[(''id'', JStr ''z''), (''bucket'', JStr ''new'')]]"
       "map bucket (items feed) =
          replicate (length [[(''id'', JStr ''a''), (''bucket'', JStr ''removed'')],
                             [(''id'', JStr ''b'')]]) ''new'' @
          replicate (length ([]::(string \<times> json) list list)) ''updated'' @
          replicate (length [[(''id'', JStr ''z''), (''bucket'', JStr ''new'')]]) ''removed''"
    by blast
  from f(3) have n: "map item_id (new feed) = [JStr ''a'', JStr ''b'']"
    by (auto simp add: dget_def)
  from f(4) have u: "updated feed = []" by simp
  from f(5) have r: "map item_id (removed feed) = [JStr ''z'']"
    by (auto simp add: dget_def)
  have "map item_id (items feed) = [JStr ''a'', JStr ''b'', JStr ''z'']"
    using f(2) n u r by simp
  moreover have "map bucket (items feed) = [''new'', ''new'', ''removed'']"
    using f(6) by (simp add: numeral_2_eq_2)
  ultimately show ?thesis using f(1) by (intro exI[where x=feed]) simp
qed

section \<open>Properties of the cursor store\<close>

lemma dirname_cursor_file: "dirname cursor_file = ''/home/bot/.diffdelta''"
  by (simp add: dirname_def cursor_file_def rstrip_slash_def)

lemma default_path: "path_join (DEFAULT_CURSOR_DIR env_bot) DEFAULT_CURSOR_FILE = cursor_file"
  by (simp add: path_join_def DEFAULT_CURSOR_DIR_def DEFAULT_CURSOR_FILE_def env_bot_def
      cursor_file_def)

lemma cursor_file_nonempty: "cursor_file \<noteq> []"
  by (simp add: cursor_file_def)

lemma dirname_nonempty: "dirname p \<noteq> [] \<Longrightarrow> p \<noteq> []"
  by (auto simp add: dirname_def)

text \<open>A path without a directory part has the empty \<open>dirname\<close>, which \<open>makedirs\<close> refuses.\<close>

lemma dirname_bare: "dirname ''cursors.json'' = []"
  by (simp add: dirname_def)

subsection \<open>Construction\<close>

lemma cursor_file_no_NUL:
  "NUL \<notin> set cursor_file" "NUL \<notin> set (dirname cursor_file)" "dirname cursor_file \<noteq> []"
  by (simp_all add: dirname_cursor_file) (simp_all add: cursor_file_def NUL_def)

text \<open>
  What the constructor does tolerate: a missing file, a file that cannot be opened, text
  that is not JSON, and a JSON value that is not an object all give the empty table.
\<close>

lemma CursorStore_init_tolerant:
  assumes "p \<noteq> []"
    and "files fs p = None \<or> fault fs (OpenRead p) \<noteq> None \<or> files fs p = Some Malformed \<or>
         (\<exists>v. files fs p = Some (Document v) \<and> (\<forall>d. v \<noteq> JObj d))"
  shows "CursorStore_init env fs (Some p) = Inr \<lparr>path = p, CursorStore.cursors = []\<rparr>"
proof (cases "os_path_exists fs p")
  case False
  with assms(1) show ?thesis by (simp add: CursorStore_init_def CursorStore_load_def)
next
  case True
  then have n: "NUL \<notin> set p" and present: "files fs p \<noteq> None"
    by (simp_all add: os_path_exists_def)
  show ?thesis
  proof (cases "fault fs (OpenRead p)")
    case (Some e)
    with assms(1) True n show ?thesis
      by (simp add: CursorStore_init_def CursorStore_load_def read_json_def)
  next
    case None
    with assms(2) present consider "files fs p = Some Malformed"
      | v where "files fs p = Some (Document v)" "\<forall>d. v \<noteq> JObj d"
      by blast
    then show ?thesis
    proof cases
      case 1
      with assms(1) None True n show ?thesis
        by (simp add: CursorStore_init_def CursorStore_load_def read_json_def)
    next
      case 2
      with assms(1) None True n show ?thesis
        by (cases v) (simp_all add: CursorStore_init_def CursorStore_load_def read_json_def)
    qed
  qed
qed

text \<open>
  What it does not: besides bytes that are not text, JSON text beyond the limits of the
  interpreter makes \<open>json.load\<close> raise an exception that \<open>_load\<close> lets through.
\<close>

lemma CursorStore_init_refused:
  assumes "p \<noteq> []" and "NUL \<notin> set p" and "fault fs (OpenRead p) = None"
  shows "files fs p = Some Undecodable \<Longrightarrow> CursorStore_init env fs (Some p) = Inl UnicodeDecodeError"
    and "files fs p = Some TooDeep \<Longrightarrow> CursorStore_init env fs (Some p) = Inl RecursionError"
    and "files fs p = Some TooLong \<Longrightarrow> CursorStore_init env fs (Some p) = Inl ValueError"
  using assms
  by (simp_all add: CursorStore_init_def CursorStore_load_def read_json_def os_path_exists_def)

lemma load_undecodable:
  "CursorStore_load \<lparr>path = cursor_file, CursorStore.cursors = []\<rparr> fs_undecodable =
     Inl UnicodeDecodeError"
  by (simp add: CursorStore_load_def read_json_def fs_undecodable_def os_path_exists_def
      cursor_file_no_NUL)

text \<open>
  C7. The claim fails on the code: over a cursor file whose bytes are not text in the
  locale's encoding, \<open>json.load\<close> raises \<open>UnicodeDecodeError\<close>, which the
  \<open>except (json.JSONDecodeError, OSError)\<close> clause of \<open>_load\<close> does not catch, so the
  constructor of the store, and with it the constructor of the client, raises.
\<close>

theorem CursorStore_init_undecodable:
  "CursorStore_init env_bot fs_undecodable (Some cursor_file) = Inl UnicodeDecodeError \<and>
   CursorStore_init env_bot fs_undecodable None = Inl UnicodeDecodeError \<and>
   DiffDelta_init env_bot fs_undecodable DEFAULT_BASE_URL None (Some []) DEFAULT_TIMEOUT
     = Inl UnicodeDecodeError"
proof -
  have 1: "CursorStore_init env_bot fs_undecodable (Some cursor_file) = Inl UnicodeDecodeError"
    by (simp add: CursorStore_init_def cursor_file_nonempty load_undecodable)
  have 2: "CursorStore_init env_bot fs_undecodable None = Inl UnicodeDecodeError"
    by (simp add: CursorStore_init_def default_path load_undecodable)
  have "DD_CURSOR_PATH env_bot = None" by (simp add: env_bot_def)
  then have 3: "DiffDelta_init env_bot fs_undecodable DEFAULT_BASE_URL None (Some []) DEFAULT_TIMEOUT
     = Inl UnicodeDecodeError"
    by (simp add: DiffDelta_init_def 2)
  from 1 2 3 show ?thesis by simp
qed

subsection \<open>Saving\<close>

text \<open>\<open>_save\<close> swallows an \<open>OSError\<close> of its body and lets every other exception out.\<close>

lemma CursorStore_save_result:
  "fst (CursorStore_save cs fs) =
     (case fst (save_body cs fs) of
        None \<Rightarrow> None
      | Some e \<Rightarrow> if is_OSError e then None else Some e)"
  "snd (CursorStore_save cs fs) = snd (save_body cs fs)"
  by (cases "save_body cs fs"; cases "fst (save_body cs fs)"; simp add: CursorStore_save_def)+

lemma CursorStore_set_unfold:
  "CursorStore_set cs fs key c =
     (fst (CursorStore_save (cs\<lparr>CursorStore.cursors := AList.update key c (CursorStore.cursors cs)\<rparr>) fs),
      cs\<lparr>CursorStore.cursors := AList.update key c (CursorStore.cursors cs)\<rparr>,
      snd (CursorStore_save (cs\<lparr>CursorStore.cursors := AList.update key c (CursorStore.cursors cs)\<rparr>) fs))"
  by (simp add: CursorStore_set_def Let_def case_prod_unfold)

lemma CursorStore_set_get:
  "CursorStore_get (fst (snd (CursorStore_set cs fs key c))) k =
     (if k = key then Some c else CursorStore_get cs k)"
  by (simp add: CursorStore_get_def CursorStore_set_unfold update_conv')

lemma CursorStore_clear_unfold:
  "fst (CursorStore_clear cs fs ko) =
     fst (CursorStore_save (fst (snd (CursorStore_clear cs fs ko))) fs)"
  "CursorStore.cursors (fst (snd (CursorStore_clear cs fs ko))) =
     (case ko of
        None \<Rightarrow> []
      | Some k \<Rightarrow> if k \<noteq> [] then AList.delete k (CursorStore.cursors cs) else [])"
  by (simp_all add: CursorStore_clear_def Let_def case_prod_unfold split: option.splits)

lemma CursorStore_clear_get:
  "CursorStore_get (fst (snd (CursorStore_clear cs fs ko))) k =
     (case ko of
        None \<Rightarrow> None
      | Some key \<Rightarrow> if key = [] \<or> k = key then None else CursorStore_get cs k)"
  by (simp add: CursorStore_get_def CursorStore_clear_unfold(2) delete_conv'
      split: option.splits)

text \<open>
  A path that the operating system interface refuses is not a failed write: the
  \<open>ValueError\<close> of \<open>os.makedirs\<close> or \<open>open\<close> leaves \<open>_save\<close>, and so \<open>set\<close> and \<open>clear\<close>, after
  the table in memory was changed.
\<close>

lemma CursorStore_set_refused_path:
  assumes "dirname (path cs) \<noteq> []"
    and "fault fs (Makedirs (dirname (path cs))) = None"
    and "NUL \<in> set (path cs)"
  shows "fst (CursorStore_set cs fs key c) = Some ValueError"
  using assms
  by (simp add: CursorStore_set_unfold CursorStore_save_result save_body_def os_makedirs_def
      write_json_def)

text \<open>
  C8. When the write of \<open>set\<close> or of \<open>clear\<close> fails with an \<open>OSError\<close> (the body of the
  \<open>try\<close> in \<open>_save\<close> raises one: a missing permission, a full disk, a directory that
  cannot be made), the call still returns normally and the table in memory holds the
  change: after \<open>set(key, c)\<close>, \<open>get(key)\<close> is \<open>c\<close> and every other key is as before;
  after \<open>clear(key)\<close> the key is gone, and after \<open>clear()\<close> every key is.
\<close>

theorem CursorStore_write_failure:
  "(fst (save_body (cs\<lparr>CursorStore.cursors := AList.update key c (CursorStore.cursors cs)\<rparr>) fs)
      = Some e \<and> is_OSError e \<longrightarrow>
      fst (CursorStore_set cs fs key c) = None \<and>
      CursorStore_get (fst (snd (CursorStore_set cs fs key c))) k =
        (if k = key then Some c else CursorStore_get cs k)) \<and>
   (fst (save_body (fst (snd (CursorStore_clear cs fs ko))) fs) = Some e' \<and> is_OSError e' \<longrightarrow>
      fst (CursorStore_clear cs fs ko) = None \<and>
      CursorStore_get (fst (snd (CursorStore_clear cs fs ko))) k =
        (case ko of
           None \<Rightarrow> None
         | Some key' \<Rightarrow> if key' = [] \<or> k = key' then None else CursorStore_get cs k))"
proof (intro conjI impI)
  assume a: "fst (save_body (cs\<lparr>CursorStore.cursors := AList.update key c (CursorStore.cursors cs)\<rparr>) fs)
      = Some e \<and> is_OSError e"
  then show "fst (CursorStore_set cs fs key c) = None"
    by (simp add: CursorStore_set_unfold CursorStore_save_result(1))
  show "CursorStore_get (fst (snd (CursorStore_set cs fs key c))) k =
        (if k = key then Some c else CursorStore_get cs k)"
    by (rule CursorStore_set_get)
next
  assume b: "fst (save_body (fst (snd (CursorStore_clear cs fs ko))) fs) = Some e' \<and> is_OSError e'"
  then show "fst (CursorStore_clear cs fs ko) = None"
    by (simp add: CursorStore_clear_unfold(1) CursorStore_save_result(1))
  show "CursorStore_get (fst (snd (CursorStore_clear cs fs ko))) k =
        (case ko of
           None \<Rightarrow> None
         | Some key' \<Rightarrow> if key' = [] \<or> k = key' then None else CursorStore_get cs k)"
    by (rule CursorStore_clear_get)
qed

lemma save_body_readonly:
  "path cs = cursor_file \<Longrightarrow>
   save_body cs fs_readonly = (Some (OSError PermissionError), fs_readonly)"
  by (simp add: save_body_def os_makedirs_def write_json_def fs_readonly_def cursor_file_no_NUL)

theorem CursorStore_write_failure_witness:
  "fst (save_body (store_c1\<lparr>CursorStore.cursors :=
          AList.update ''global'' (JStr ''c2'') (CursorStore.cursors store_c1)\<rparr>)
        fs_readonly) = Some (OSError PermissionError) \<and>
   fst (CursorStore_set store_c1 fs_readonly ''global'' (JStr ''c2'')) = None \<and>
   CursorStore_get (fst (snd (CursorStore_set store_c1 fs_readonly ''global'' (JStr ''c2''))))
     ''global'' = Some (JStr ''c2'') \<and>
   fst (save_body (fst (snd (CursorStore_clear store_c1 fs_readonly (Some ''global'')))) fs_readonly)
     = Some (OSError PermissionError) \<and>
   fst (CursorStore_clear store_c1 fs_readonly (Some ''global'')) = None \<and>
   CursorStore_get (fst (snd (CursorStore_clear store_c1 fs_readonly (Some ''global''))))
     ''global'' = None"
proof -
  have p: "path store_c1 = cursor_file" by (simp add: store_c1_def)
  have a: "fst (save_body (store_c1\<lparr>CursorStore.cursors :=
          AList.update ''global'' (JStr ''c2'') (CursorStore.cursors store_c1)\<rparr>)
        fs_readonly) = Some (OSError PermissionError)"
    by (simp add: save_body_readonly p)
  have "path (fst (snd (CursorStore_clear store_c1 fs_readonly (Some ''global'')))) = cursor_file"
    by (simp add: CursorStore_clear_def Let_def case_prod_unfold p)
  then have b:
    "fst (save_body (fst (snd (CursorStore_clear store_c1 fs_readonly (Some ''global'')))) fs_readonly)
     = Some (OSError PermissionError)"
    by (simp add: save_body_readonly)
  show ?thesis
    using a b
      CursorStore_write_failure[where cs=store_c1 and key="''global''" and c="JStr ''c2''"
        and fs=fs_readonly and k="''global''" and ko="Some ''global''"
        and e="OSError PermissionError" and e'="OSError PermissionError"]
    by simp
qed

subsection \<open>Round trip\<close>

lemma save_body_success:
  assumes "fst (save_body cs fs) = None"
  shows "path cs \<noteq> []"
    and "NUL \<notin> set (path cs)"
    and "save_body cs fs =
           (None, fs\<lparr>files := (files fs)(path cs \<mapsto> Document (JObj (CursorStore.cursors cs)))\<rparr>)"
proof -
  from assms have d: "dirname (path cs) \<noteq> []"
    by (auto simp add: save_body_def os_makedirs_def split: if_splits)
  then show "path cs \<noteq> []" by (rule dirname_nonempty)
  from assms show "NUL \<notin> set (path cs)"
    by (auto simp add: save_body_def os_makedirs_def write_json_def split: if_splits option.splits)
  from assms show "save_body cs fs =
      (None, fs\<lparr>files := (files fs)(path cs \<mapsto> Document (JObj (CursorStore.cursors cs)))\<rparr>)"
    by (auto simp add: save_body_def os_makedirs_def write_json_def split: if_splits option.splits)
qed

text \<open>
  C9. When \<open>set(key, c)\<close> has written the file (the body of the \<open>try\<close> in \<open>_save\<close> ran
  through) and the file can be opened for reading, a fresh store constructed over the
  same path on the resulting file system returns \<open>c\<close> for \<open>key\<close>.
\<close>

theorem CursorStore_round_trip:
  assumes "fst (save_body (cs\<lparr>CursorStore.cursors := AList.update key c (CursorStore.cursors cs)\<rparr>) fs)
             = None"
    and "fault fs (OpenRead (path cs)) = None"
  shows "\<exists>fresh. CursorStore_init env (snd (snd (CursorStore_set cs fs key c))) (Some (path cs))
                    = Inr fresh \<and>
                 CursorStore_get fresh key = Some c"
proof -
  let ?cs' = "cs\<lparr>CursorStore.cursors := AList.update key c (CursorStore.cursors cs)\<rparr>"
  let ?fs' = "fs\<lparr>files := (files fs)(path cs \<mapsto>
                Document (JObj (AList.update key c (CursorStore.cursors cs))))\<rparr>"
  from save_body_success[OF assms(1)] have p: "path cs \<noteq> []" and n: "NUL \<notin> set (path cs)"
    and sb: "save_body ?cs' fs = (None, ?fs')"
    by simp_all
  from sb have "snd (snd (CursorStore_set cs fs key c)) = ?fs'"
    by (simp add: CursorStore_set_unfold CursorStore_save_def)
  moreover have "CursorStore_init env ?fs' (Some (path cs)) =
      Inr \<lparr>path = path cs, CursorStore.cursors = AList.update key c (CursorStore.cursors cs)\<rparr>"
    using p n assms(2)
    by (simp add: CursorStore_init_def CursorStore_load_def read_json_def os_path_exists_def)
  moreover have "CursorStore_get
      \<lparr>path = path cs, CursorStore.cursors = AList.update key c (CursorStore.cursors cs)\<rparr> key
      = Some c"
    by (simp add: CursorStore_get_def update_conv')
  ultimately show ?thesis by simp
qed

lemma save_body_fs_empty:
  "path cs = cursor_file \<Longrightarrow> fst (save_body cs fs_empty) = None"
  by (simp add: save_body_def os_makedirs_def write_json_def fs_empty_def cursor_file_no_NUL)

theorem CursorStore_round_trip_witness:
  "\<exists>fresh. CursorStore_init env_bot
              (snd (snd (CursorStore_set store_new fs_empty ''global'' (JStr ''abc123''))))
              (Some cursor_file) = Inr fresh \<and>
           CursorStore_get fresh ''global'' = Some (JStr ''abc123'')"
proof -
  have 1: "fst (save_body (store_new\<lparr>CursorStore.cursors :=
             AList.update ''global'' (JStr ''abc123'') (CursorStore.cursors store_new)\<rparr>) fs_empty)
           = None"
    by (simp add: save_body_fs_empty store_new_def)
  have 2: "fault fs_empty (OpenRead (path store_new)) = None"
    by (simp add: fs_empty_def)
  have 3: "path store_new = cursor_file" by (simp add: store_new_def)
  show ?thesis using CursorStore_round_trip[OF 1 2, of env_bot] by (simp add: 3)
qed

section \<open>Properties of the poll engine\<close>

lemma list_ex_py_eq:
  "list_ex (\<lambda>s. py_eq (JStr s) x) ss \<longleftrightarrow> x \<in> JStr ` set ss"
  "list_ex (\<lambda>s. x = JStr s) ss \<longleftrightarrow> x \<in> JStr ` set ss"
  by (auto simp add: list_ex_iff)

lemma get_json_log: "net_log (snd (get_json net w u)) = net_log w @ [u]"
  by (simp add: get_json_def)

lemma get_json_frame:
  "disk (snd (get_json net w u)) = disk w"
  "dispatched (snd (get_json net w u)) = dispatched w"
  "sleeps (snd (get_json net w u)) = sleeps w"
  "stdout (snd (get_json net w u)) = stdout w"
  by (simp_all add: get_json_def)

lemma sources_world:
  "snd (sources net dd w) = w\<lparr>net_log := net_log w @ [base_url dd @ ''/diff/sources.json'']\<rparr>"
  by (simp add: sources_def get_json_def split: sum.splits json.splits)

lemma fetch_source_tags_world:
  "snd (fetch_source_tags net dd w) = w\<lparr>net_log := net_log w @ [base_url dd @ ''/diff/sources.json'']\<rparr>"
  using sources_world[of net dd w]
  by (cases "sources net dd w") (auto simp add: fetch_source_tags_def split: sum.splits)

lemma get_source_tags_cases:
  assumes "get_source_tags net dd w = (r, dd', w')"
  shows "(source_tags_cache dd \<noteq> None \<and> dd' = dd \<and> w' = w \<and> r = Inr (the (source_tags_cache dd))) \<or>
         (source_tags_cache dd = None \<and>
          w' = w\<lparr>net_log := net_log w @ [base_url dd @ ''/diff/sources.json'']\<rparr> \<and>
          ((\<exists>t. r = Inr t \<and> dd' = dd\<lparr>source_tags_cache := Some t\<rparr>) \<or>
           (\<exists>e. r = Inl e \<and> \<not> is_Exception e \<and> dd' = dd)))"
proof (cases "source_tags_cache dd")
  case (Some t)
  with assms show ?thesis by (auto simp add: get_source_tags_def)
next
  case None
  obtain x w1 where f: "fetch_source_tags net dd w = (x, w1)" by (cases "fetch_source_tags net dd w")
  with fetch_source_tags_world[of net dd w]
  have w1: "w1 = w\<lparr>net_log := net_log w @ [base_url dd @ ''/diff/sources.json'']\<rparr>" by simp
  show ?thesis
    using assms None f w1
    by (cases x) (auto simp add: get_source_tags_def split: if_splits)
qed

lemma get_source_tags_Inr:
  assumes "fst (get_source_tags net dd w) = Inr t"
  shows "\<exists>dd' w'. get_source_tags net dd w = (Inr t, dd', w') \<and> source_tags_cache dd' = Some t \<and>
           DiffDelta.cursors dd' = DiffDelta.cursors dd \<and> base_url dd' = base_url dd"
proof -
  obtain r dd' w' where g: "get_source_tags net dd w = (r, dd', w')"
    by (cases "get_source_tags net dd w") auto
  with assms have r: "r = Inr t" by simp
  from get_source_tags_cases[OF g] r g show ?thesis by auto
qed

lemma get_source_tags_cached:
  "source_tags_cache dd = Some t \<Longrightarrow> get_source_tags net dd w = (Inr t, dd, w)"
  by (simp add: get_source_tags_def)

lemma filter_loop_skip:
  "\<not> passes srcs buckets item \<Longrightarrow>
   filter_loop net tgs srcs buckets (item # rest) acc dd w =
     filter_loop net tgs srcs buckets rest acc dd w"
  by (auto simp add: passes_def list_ex_py_eq)

lemma filter_loop_untagged:
  "passes srcs buckets item \<Longrightarrow> \<not> given tgs \<Longrightarrow>
   filter_loop net tgs srcs buckets (item # rest) acc dd w =
     filter_loop net tgs srcs buckets rest (acc @ [item]) dd w"
  by (auto simp add: passes_def list_ex_py_eq)

lemma filter_loop_tags_raise:
  "passes srcs buckets item \<Longrightarrow> given tgs \<Longrightarrow>
   get_source_tags net dd w = (Inl e, dd1, w1) \<Longrightarrow>
   filter_loop net tgs srcs buckets (item # rest) acc dd w = (Inl e, dd1, w1)"
  by (auto simp add: passes_def list_ex_py_eq)

lemma filter_loop_hit_raise:
  "passes srcs buckets item \<Longrightarrow> given tgs \<Longrightarrow>
   get_source_tags net dd w = (Inr t, dd1, w1) \<Longrightarrow> item_hit t (the tgs) item = Inl e \<Longrightarrow>
   filter_loop net tgs srcs buckets (item # rest) acc dd w = (Inl e, dd1, w1)"
  by (auto simp add: passes_def list_ex_py_eq item_hit_def split: sum.splits)

lemma filter_loop_hit:
  "passes srcs buckets item \<Longrightarrow> given tgs \<Longrightarrow>
   get_source_tags net dd w = (Inr t, dd1, w1) \<Longrightarrow> item_hit t (the tgs) item = Inr b \<Longrightarrow>
   filter_loop net tgs srcs buckets (item # rest) acc dd w =
     filter_loop net tgs srcs buckets rest (if b then acc @ [item] else acc) dd1 w1"
  by (auto simp add: passes_def list_ex_py_eq item_hit_def split: sum.splits)

declare filter_loop.simps(2) [simp del]

lemma filter_loop_cached:
  assumes "source_tags_cache dd \<noteq> None"
    and "filter_loop net tgs srcs buckets its acc dd w = (r, dd', w')"
  shows "dd' = dd \<and> w' = w"
  using assms
proof (induction its arbitrary: acc)
  case Nil
  then show ?case by simp
next
  case (Cons item rest)
  from Cons.prems(1) obtain t where t: "source_tags_cache dd = Some t" by auto
  note gs = get_source_tags_cached[OF t, of net w]
  show ?case
  proof (cases "passes srcs buckets item")
    case False
    from Cons.prems(2) Cons.IH[OF Cons.prems(1)] show ?thesis
      by (simp only: filter_loop_skip[OF False])
  next
    case True
    show ?thesis
    proof (cases "given tgs")
      case False
      from Cons.prems(2) Cons.IH[OF Cons.prems(1)] show ?thesis
        by (simp only: filter_loop_untagged[OF True False])
    next
      case g: True
      show ?thesis
      proof (cases "item_hit t (the tgs) item")
        case (Inl e)
        from Cons.prems(2) show ?thesis
          by (simp add: filter_loop_hit_raise[OF True g gs Inl])
      next
        case (Inr b)
        from Cons.prems(2) Cons.IH[OF Cons.prems(1)] show ?thesis
          by (simp only: filter_loop_hit[OF True g gs Inr])
      qed
    qed
  qed
qed

lemma filter_loop_frame:
  assumes "filter_loop net tgs srcs buckets its acc dd w = (r, dd', w')"
  shows "(dd' = dd \<and> w' = w) \<or>
         (source_tags_cache dd = None \<and>
          w' = w\<lparr>net_log := net_log w @ [base_url dd @ ''/diff/sources.json'']\<rparr> \<and>
          (dd' = dd \<or> (\<exists>t. dd' = dd\<lparr>source_tags_cache := Some t\<rparr>)))"
  using assms
proof (induction its arbitrary: acc)
  case Nil
  then show ?case by simp
next
  case (Cons item rest)
  show ?case
  proof (cases "passes srcs buckets item")
    case False
    from Cons.prems Cons.IH show ?thesis
      by (simp only: filter_loop_skip[OF False])
  next
    case True
    show ?thesis
    proof (cases "given tgs")
      case False
      from Cons.prems Cons.IH show ?thesis
        by (simp only: filter_loop_untagged[OF True False])
    next
      case g: True
      obtain x dd1 w1 where gs: "get_source_tags net dd w = (x, dd1, w1)"
        by (cases "get_source_tags net dd w") auto
      note c = get_source_tags_cases[OF gs]
      show ?thesis
      proof (cases x)
        case (Inl e)
        with Cons.prems filter_loop_tags_raise[OF True g, of net dd w e dd1 w1] gs
        have "dd' = dd1" "w' = w1" by auto
        with c Inl show ?thesis by auto
      next
        case (Inr t)
        have rest: "\<And>a. filter_loop net tgs srcs buckets rest a dd1 w1 = (r, dd', w') \<Longrightarrow>
            source_tags_cache dd1 \<noteq> None \<Longrightarrow> dd' = dd1 \<and> w' = w1"
          using filter_loop_cached by blast
        have c1: "source_tags_cache dd1 \<noteq> None" using c Inr by auto
        have "dd' = dd1 \<and> w' = w1"
        proof (cases "item_hit t (the tgs) item")
          case e: (Inl e)
          with Cons.prems filter_loop_hit_raise[OF True g, of net dd w t dd1 w1 e] gs Inr
          show ?thesis by auto
        next
          case b: (Inr b)
          with Cons.prems filter_loop_hit[OF True g, of net dd w t dd1 w1 b] gs Inr
          have "filter_loop net tgs srcs buckets rest (if b then acc @ [item] else acc) dd1 w1
                  = (r, dd', w')"
            by auto
          from rest[OF this c1] show ?thesis .
        qed
        with c Inr show ?thesis by auto
      qed
    qed
  qed
qed

lemma filter_loop_result:
  assumes "given tgs \<longrightarrow> fst (get_source_tags net dd w) = Inr t"
    and "given tgs \<longrightarrow> (\<forall>item\<in>set its. passes srcs buckets item \<longrightarrow>
            (\<exists>b. item_hit t (the tgs) item = Inr b))"
  shows "fst (filter_loop net tgs srcs buckets its acc dd w) =
           Inr (acc @ filter (keeps t tgs srcs buckets) its)"
  using assms
proof (induction its arbitrary: acc dd w)
  case Nil
  then show ?case by simp
next
  case (Cons item rest)
  have 2: "given tgs \<longrightarrow> (\<forall>item\<in>set rest. passes srcs buckets item \<longrightarrow>
            (\<exists>b. item_hit t (the tgs) item = Inr b))"
    using Cons.prems(2) by simp
  show ?case
  proof (cases "passes srcs buckets item")
    case False
    then have "\<not> keeps t tgs srcs buckets item" by (simp add: keeps_def)
    then show ?thesis
      using Cons.IH[OF Cons.prems(1) 2, of acc] by (simp add: filter_loop_skip[OF False])
  next
    case True
    show ?thesis
    proof (cases "given tgs")
      case False
      then have "keeps t tgs srcs buckets item" using True by (simp add: keeps_def)
      then show ?thesis
        using Cons.IH[of dd w "acc @ [item]"] False
        by (simp add: filter_loop_untagged[OF True False])
    next
      case g: True
      with Cons.prems(1) have "fst (get_source_tags net dd w) = Inr t" by simp
      from get_source_tags_Inr[OF this] obtain dd' w' where
        gs: "get_source_tags net dd w = (Inr t, dd', w')" and c: "source_tags_cache dd' = Some t"
        by blast
      from Cons.prems(2) g True obtain b where b: "item_hit t (the tgs) item = Inr b" by auto
      have k: "keeps t tgs srcs buckets item = b" using True g b by (simp add: keeps_def)
      have 1: "given tgs \<longrightarrow> fst (get_source_tags net dd' w') = Inr t"
        by (simp add: get_source_tags_cached[OF c])
      show ?thesis
        using Cons.IH[OF 1 2, of "if b then acc @ [item] else acc"] k
        by (simp add: filter_loop_hit[OF True g gs b])
    qed
  qed
qed

subsection \<open>The steps of poll_feed\<close>

lemma head_world:
  "snd (head net dd w u) =
     w\<lparr>net_log := net_log w @ [case u of None \<Rightarrow> base_url dd @ ''/diff/head.json'' | Some v \<Rightarrow> v]\<rparr>"
  by (simp add: head_def get_json_def split: sum.splits)

lemma fetch_feed_world:
  "snd (fetch_feed net dd w u) =
     w\<lparr>net_log := net_log w @ [case u of None \<Rightarrow> base_url dd @ ''/diff/latest.json'' | Some v \<Rightarrow> v]\<rparr>"
  by (simp add: fetch_feed_def get_json_def split: sum.splits)

lemma fetch_feed_result:
  "fst (fetch_feed net dd w (Some u)) =
     (case net (length (net_log w)) u of Inl e \<Rightarrow> Inl e | Inr doc \<Rightarrow> Feed_from_raw doc)"
  by (simp add: fetch_feed_def get_json_def split: sum.splits)

lemma save_cursor_unfold:
  "save_cursor dd w key feed =
     ((case DiffDelta.cursors dd of
         None \<Rightarrow> None
       | Some cs \<Rightarrow>
           if truthy (Feed.cursor feed)
           then fst (CursorStore_set cs (disk w) key (Feed.cursor feed))
           else None),
      (case DiffDelta.cursors dd of
         None \<Rightarrow> dd
       | Some cs \<Rightarrow>
           if truthy (Feed.cursor feed)
           then dd\<lparr>DiffDelta.cursors :=
                  Some (cs\<lparr>CursorStore.cursors :=
                          AList.update key (Feed.cursor feed) (CursorStore.cursors cs)\<rparr>)\<rparr>
           else dd),
      (case DiffDelta.cursors dd of
         None \<Rightarrow> w
       | Some cs \<Rightarrow>
           if truthy (Feed.cursor feed)
           then w\<lparr>disk := snd (snd (CursorStore_set cs (disk w) key (Feed.cursor feed)))\<rparr>
           else w))"
proof (cases "DiffDelta.cursors dd")
  case None
  then show ?thesis by (simp add: save_cursor_def)
next
  case (Some cs)
  then show ?thesis
    by (simp add: save_cursor_def CursorStore_set_unfold)
qed

text \<open>A disabled store, and a feed without a cursor, save nothing and cannot raise.\<close>

lemma save_cursor_nothing:
  "DiffDelta.cursors dd = None \<or> \<not> truthy (Feed.cursor feed) \<Longrightarrow>
   save_cursor dd w key feed = (None, dd, w)"
  by (auto simp add: save_cursor_unfold split: option.splits)

lemma save_cursor_frame:
  "net_log (snd (snd (save_cursor dd w key feed))) = net_log w"
  "source_tags_cache (fst (snd (save_cursor dd w key feed))) = source_tags_cache dd"
  "base_url (fst (snd (save_cursor dd w key feed))) = base_url dd"
  by (simp_all add: save_cursor_unfold split: option.splits)

lemma save_cursor_stored:
  "stored_cursor (fst (snd (save_cursor dd w key feed))) k =
     (if DiffDelta.cursors dd \<noteq> None \<and> truthy (Feed.cursor feed) \<and> k = key
      then Feed.cursor feed else stored_cursor dd k)"
  by (simp add: save_cursor_unfold stored_cursor_def CursorStore_get_def update_conv'
      split: option.splits)

lemma poll_feed_head_raises:
  "head net dd w (Some head_u) = (Inl e, w1) \<Longrightarrow>
   poll_feed net dd w head_u latest_u key tgs srcs buckets = (Inl e, dd, w1)"
  by (simp add: poll_feed_def)

lemma poll_feed_unchanged:
  "head net dd w (Some head_u) = (Inr h, w1) \<Longrightarrow>
   truthy (stored_cursor dd key) \<and> py_eq (stored_cursor dd key) (Head.cursor h) \<Longrightarrow>
   poll_feed net dd w head_u latest_u key tgs srcs buckets = (Inr [], dd, w1)"
  by (simp add: poll_feed_def)

lemma poll_feed_feed_raises:
  "head net dd w (Some head_u) = (Inr h, w1) \<Longrightarrow>
   \<not> (truthy (stored_cursor dd key) \<and> py_eq (stored_cursor dd key) (Head.cursor h)) \<Longrightarrow>
   fetch_feed net dd w1 (Some latest_u) = (Inl e, w2) \<Longrightarrow>
   poll_feed net dd w head_u latest_u key tgs srcs buckets = (Inl e, dd, w2)"
  by (simp add: poll_feed_def)

text \<open>
  After the full fetch: an exception of \<open>set\<close> leaves the poll with the table already
  changed; otherwise the loop over the items runs.
\<close>

lemma poll_feed_after_fetch:
  assumes h: "head net dd w (Some head_u) = (Inr h, w1)"
    and n: "\<not> (truthy (stored_cursor dd key) \<and> py_eq (stored_cursor dd key) (Head.cursor h))"
    and f: "fetch_feed net dd w1 (Some latest_u) = (Inr feed, w2)"
  shows "poll_feed net dd w head_u latest_u key tgs srcs buckets =
     (case fst (save_cursor dd w2 key feed) of
        Some e \<Rightarrow>
          (Inl e, fst (snd (save_cursor dd w2 key feed)), snd (snd (save_cursor dd w2 key feed)))
      | None \<Rightarrow>
          filter_loop net tgs srcs buckets (items feed) []
            (fst (snd (save_cursor dd w2 key feed))) (snd (snd (save_cursor dd w2 key feed))))"
proof -
  obtain x dd3 w3 where s: "save_cursor dd w2 key feed = (x, dd3, w3)"
    by (cases "save_cursor dd w2 key feed") auto
  show ?thesis
    unfolding poll_feed_def using h n f s
    by (cases x) auto
qed

lemma poll_feed_fetched:
  assumes "head net dd w (Some head_u) = (Inr h, w1)"
    and "\<not> (truthy (stored_cursor dd key) \<and> py_eq (stored_cursor dd key) (Head.cursor h))"
    and "fetch_feed net dd w1 (Some latest_u) = (Inr feed, w2)"
    and "fst (save_cursor dd w2 key feed) = None"
  shows "poll_feed net dd w head_u latest_u key tgs srcs buckets =
     filter_loop net tgs srcs buckets (items feed) []
       (fst (snd (save_cursor dd w2 key feed))) (snd (snd (save_cursor dd w2 key feed)))"
  using poll_feed_after_fetch[OF assms(1-3), of tgs srcs buckets] assms(4) by simp

lemma poll_feed_save_raises:
  assumes "head net dd w (Some head_u) = (Inr h, w1)"
    and "\<not> (truthy (stored_cursor dd key) \<and> py_eq (stored_cursor dd key) (Head.cursor h))"
    and "fetch_feed net dd w1 (Some latest_u) = (Inr feed, w2)"
    and "fst (save_cursor dd w2 key feed) = Some e"
  shows "poll_feed net dd w head_u latest_u key tgs srcs buckets =
     (Inl e, fst (snd (save_cursor dd w2 key feed)), snd (snd (save_cursor dd w2 key feed)))"
  using poll_feed_after_fetch[OF assms(1-3), of tgs srcs buckets] assms(4) by simp

lemma poll_feed_fetched_frame:
  assumes h: "head net dd w (Some head_u) = (Inr h, w1)"
    and n: "\<not> (truthy (stored_cursor dd key) \<and> py_eq (stored_cursor dd key) (Head.cursor h))"
    and f: "fetch_feed net dd w1 (Some latest_u) = (Inr feed, w2)"
    and p: "poll_feed net dd w head_u latest_u key tgs srcs buckets = (r, dd', w')"
  shows "DiffDelta.cursors dd' = DiffDelta.cursors (fst (snd (save_cursor dd w2 key feed)))"
    and "base_url dd' = base_url dd"
    and "net_log w' = net_log w2 \<or> net_log w' = net_log w2 @ [base_url dd @ ''/diff/sources.json'']"
    and "disk w' = disk (snd (snd (save_cursor dd w2 key feed)))"
proof -
  let ?dd3 = "fst (snd (save_cursor dd w2 key feed))"
  let ?w3 = "snd (snd (save_cursor dd w2 key feed))"
  have "(dd' = ?dd3 \<and> w' = ?w3) \<or>
        (source_tags_cache ?dd3 = None \<and>
         w' = ?w3\<lparr>net_log := net_log ?w3 @ [base_url ?dd3 @ ''/diff/sources.json'']\<rparr> \<and>
         (dd' = ?dd3 \<or> (\<exists>t. dd' = ?dd3\<lparr>source_tags_cache := Some t\<rparr>)))"
  proof (cases "fst (save_cursor dd w2 key feed)")
    case None
    from poll_feed_fetched[OF h n f None, of tgs srcs buckets] p
    have "filter_loop net tgs srcs buckets (items feed) [] ?dd3 ?w3 = (r, dd', w')" by simp
    from filter_loop_frame[OF this] show ?thesis .
  next
    case (Some e)
    from poll_feed_save_raises[OF h n f Some, of tgs srcs buckets] p
    have "(dd', w') = snd (save_cursor dd w2 key feed)" by simp
    then have "dd' = ?dd3" and "w' = ?w3" by (metis fst_conv, metis snd_conv)
    then show ?thesis by simp
  qed
  then show "DiffDelta.cursors dd' = DiffDelta.cursors ?dd3"
    and "base_url dd' = base_url dd"
    and "net_log w' = net_log w2 \<or> net_log w' = net_log w2 @ [base_url dd @ ''/diff/sources.json'']"
    and "disk w' = disk ?w3"
    by (auto simp add: save_cursor_frame)
qed

text \<open>The requests of a poll whose head check does not stop it.\<close>

lemma poll_feed_fetches:
  assumes h: "head net dd w (Some head_u) = (Inr h, w1)"
    and n: "\<not> (truthy (stored_cursor dd key) \<and> py_eq (stored_cursor dd key) (Head.cursor h))"
    and p: "poll_feed net dd w head_u latest_u key tgs srcs buckets = (r, dd', w')"
  shows "net_log w' = net_log w @ [head_u, latest_u] \<or>
         net_log w' = net_log w @ [head_u, latest_u, base_url dd @ ''/diff/sources.json'']"
proof -
  from h head_world[of net dd w "Some head_u"]
  have w1: "w1 = w\<lparr>net_log := net_log w @ [head_u]\<rparr>" by simp
  obtain x w2 where f: "fetch_feed net dd w1 (Some latest_u) = (x, w2)"
    by (cases "fetch_feed net dd w1 (Some latest_u)")
  with fetch_feed_world[of net dd w1 "Some latest_u"] w1
  have w2: "net_log w2 = net_log w @ [head_u, latest_u]" by simp
  show ?thesis
  proof (cases x)
    case (Inl e)
    with poll_feed_feed_raises[OF h n] f p w2 show ?thesis by simp
  next
    case (Inr feed)
    with f have f': "fetch_feed net dd w1 (Some latest_u) = (Inr feed, w2)" by simp
    from poll_feed_fetched_frame(3)[OF h n f' p] w2 show ?thesis by auto
  qed
qed

subsection \<open>The concrete server\<close>

lemma urls:
  "base_url (client t) @ ''/diff/head.json'' = head_json_url"
  "base_url (client t) @ ''/diff/latest.json'' = latest_json_url"
  "base_url (client t) @ ''/diff/sources.json'' = sources_json_url"
  "head_json_url \<noteq> latest_json_url" "latest_json_url \<noteq> head_json_url"
  "sources_json_url \<noteq> head_json_url" "sources_json_url \<noteq> latest_json_url"
  by (simp_all add: client_def DEFAULT_BASE_URL_def head_json_url_def latest_json_url_def
      sources_json_url_def)

lemma server_head:
  "head (server c) (client t) w (Some head_json_url) =
     (Inr (head_of c), w\<lparr>net_log := net_log w @ [head_json_url]\<rparr>)"
  by (simp add: head_def get_json_def server_def dget_def head_of_def)

lemma raw_item_from_raw: "FeedItem_from_raw (raw_item src i) b = Inr (mk_item src i b)"
  by (simp add: raw_item_def mk_item_def dget_def item_excerpt_def)

lemma feed_doc_abc_from_raw: "Feed_from_raw (feed_doc_abc c) = Inr (feed_abc c)"
  by (simp add: feed_doc_abc_def feed_abc_def dget_def section_items_def raw_item_from_raw)

lemma server_feed:
  "fetch_feed (server c) (client t) w (Some latest_json_url) =
     (Inr (feed_abc c), w\<lparr>net_log := net_log w @ [latest_json_url]\<rparr>)"
  by (simp add: fetch_feed_def get_json_def server_def urls feed_doc_abc_from_raw)

lemma client_stored: "stored_cursor (client t) k = (case map_of t k of None \<Rightarrow> JNull | Some c \<Rightarrow> c)"
  by (simp add: stored_cursor_def client_def CursorStore_get_def)

lemma poll_feed_fetched_client:
  assumes h: "head net dd w (Some head_u) = (Inr h, w1)"
    and n: "\<not> (truthy (stored_cursor dd key) \<and> py_eq (stored_cursor dd key) (Head.cursor h))"
    and f: "fetch_feed net dd w1 (Some latest_u) = (Inr feed, w2)"
    and p: "poll_feed net dd w head_u latest_u key tgs srcs buckets = (r, dd', w')"
  shows "DiffDelta.cursors dd' = DiffDelta.cursors (fst (snd (save_cursor dd w2 key feed)))"
    and "base_url dd' = base_url dd"
  using poll_feed_fetched_frame(1,2)[OF h n f p] by simp_all

text \<open>On a file system without faults the client of the examples saves its cursor.\<close>

lemma client_saves:
  assumes "fault (disk w) = (\<lambda>c. None)" and "dump_fault (disk w) = (\<lambda>v. None)"
  shows "fst (save_cursor (client t) w key feed) = None"
  using assms
  by (simp add: save_cursor_unfold client_def CursorStore_set_unfold CursorStore_save_result
      save_body_def os_makedirs_def write_json_def cursor_file_no_NUL)

lemma world0_disk:
  "fault (disk world0) = (\<lambda>c. None)" "dump_fault (disk world0) = (\<lambda>v. None)"
  by (simp_all add: world0_def fs_empty_def)

text \<open>
  C1, as the code has it. Suppose the head was fetched. The poll stops after that one
  request exactly when the stored cursor for the key is truthy (present and not empty)
  and equals the head's cursor by \<open>==\<close>; it then returns the empty list and changes
  nothing. Otherwise the next request is the full feed. With the store disabled or no
  cursor stored for the key the full feed is always fetched. For a stored string \<open>s\<close>
  the poll stops exactly when \<open>s\<close> is not empty and the head's cursor is \<open>s\<close>.
\<close>

theorem poll_feed_head_check:
  assumes "head net dd w (Some head_u) = (Inr h, w1)"
    and "poll_feed net dd w head_u latest_u key tgs srcs buckets = (r, dd', w')"
  shows "(net_log w' = net_log w @ [head_u] \<longleftrightarrow>
            truthy (stored_cursor dd key) \<and> py_eq (stored_cursor dd key) (Head.cursor h)) \<and>
         (net_log w' = net_log w @ [head_u] \<longrightarrow> r = Inr [] \<and> dd' = dd \<and> w' = w1) \<and>
         (net_log w' \<noteq> net_log w @ [head_u] \<longrightarrow>
            take (Suc (Suc (length (net_log w)))) (net_log w') = net_log w @ [head_u, latest_u]) \<and>
         (DiffDelta.cursors dd = None \<or>
          (\<exists>cs. DiffDelta.cursors dd = Some cs \<and> CursorStore_get cs key = None) \<longrightarrow>
            net_log w' \<noteq> net_log w @ [head_u]) \<and>
         (\<forall>s. stored_cursor dd key = JStr s \<longrightarrow>
            (net_log w' = net_log w @ [head_u] \<longleftrightarrow> s \<noteq> [] \<and> Head.cursor h = JStr s))"
proof -
  from assms(1) head_world[of net dd w "Some head_u"]
  have w1: "w1 = w\<lparr>net_log := net_log w @ [head_u]\<rparr>" by simp
  show ?thesis
  proof (cases "truthy (stored_cursor dd key) \<and> py_eq (stored_cursor dd key) (Head.cursor h)")
    case True
    from poll_feed_unchanged[OF assms(1) True, of latest_u tgs srcs buckets] assms(2)
    have "r = Inr []" "dd' = dd" "w' = w1" by simp_all
    with True w1 show ?thesis
      by (auto simp add: stored_cursor_def split: option.splits)
  next
    case False
    from poll_feed_fetches[OF assms(1) False assms(2)]
    have l: "net_log w' = net_log w @ [head_u, latest_u] \<or>
         net_log w' = net_log w @ [head_u, latest_u, base_url dd @ ''/diff/sources.json'']" .
    then have 1: "net_log w' \<noteq> net_log w @ [head_u]" by auto
    from l have 2: "take (Suc (Suc (length (net_log w)))) (net_log w') = net_log w @ [head_u, latest_u]"
      by auto
    from False 1 2 show ?thesis by auto
  qed
qed

text \<open>
  C10. When the cursor stored for the key is the empty string, a poll whose head fetch
  succeeds always goes on to request the full feed, whatever the head's cursor is, the
  empty string included.
\<close>

theorem poll_feed_empty_stored_cursor:
  assumes "DiffDelta.cursors dd = Some cs"
    and "CursorStore_get cs key = Some (JStr [])"
    and "head net dd w (Some head_u) = (Inr h, w1)"
  shows "take (Suc (Suc (length (net_log w))))
           (net_log (snd (snd (poll_feed net dd w head_u latest_u key tgs srcs buckets))))
         = net_log w @ [head_u, latest_u]"
proof -
  from assms(1,2) have "stored_cursor dd key = JStr []" by (simp add: stored_cursor_def)
  then have n: "\<not> (truthy (stored_cursor dd key) \<and> py_eq (stored_cursor dd key) (Head.cursor h))"
    by simp
  obtain r dd' w' where p: "poll_feed net dd w head_u latest_u key tgs srcs buckets = (r, dd', w')"
    by (cases "poll_feed net dd w head_u latest_u key tgs srcs buckets") auto
  from poll_feed_fetches[OF assms(3) n p] p show ?thesis by auto
qed

text \<open>
  C2. After a poll has fetched the full feed, with the store enabled: if the feed's
  cursor is truthy (for a string: not empty), the store holds it under the key, whatever
  the filters keep and whether or not the filter loop raises afterwards; if it is not
  (the empty string), the store is unchanged.
\<close>

theorem poll_feed_stores_cursor:
  assumes h: "head net dd w (Some head_u) = (Inr h, w1)"
    and n: "\<not> (truthy (stored_cursor dd key) \<and> py_eq (stored_cursor dd key) (Head.cursor h))"
    and f: "fetch_feed net dd w1 (Some latest_u) = (Inr feed, w2)"
    and p: "poll_feed net dd w head_u latest_u key tgs srcs buckets = (r, dd', w')"
    and c: "DiffDelta.cursors dd = Some cs"
  shows "\<exists>cs'. DiffDelta.cursors dd' = Some cs' \<and>
           (truthy (Feed.cursor feed) \<longrightarrow> CursorStore_get cs' key = Some (Feed.cursor feed)) \<and>
           (\<not> truthy (Feed.cursor feed) \<longrightarrow> cs' = cs) \<and>
           (Feed.cursor feed = JStr s \<longrightarrow>
              (if s \<noteq> [] then CursorStore_get cs' key = Some (JStr s) else cs' = cs))"
proof -
  from poll_feed_fetched_client(1)[OF h n f p] c
  have "DiffDelta.cursors dd' =
      Some (if truthy (Feed.cursor feed)
            then cs\<lparr>CursorStore.cursors := AList.update key (Feed.cursor feed) (CursorStore.cursors cs)\<rparr>
            else cs)"
    by (simp add: save_cursor_unfold)
  then show ?thesis
    by (auto simp add: CursorStore_get_def update_conv')
qed

lemma triple: "x = (fst x, fst (snd x), snd (snd x))"
  by simp

theorem poll_feed_head_check_witness:
  "fst (poll (server ''c2'') (client [(''global'', JStr ''c2'')]) world0 None None None) = Inr [] \<and>
   net_log (snd (snd (poll (server ''c2'') (client [(''global'', JStr ''c2'')]) world0 None None None)))
     = [head_json_url] \<and>
   take 2 (net_log (snd (snd (poll (server ''c2'') (client [(''global'', JStr ''c1'')]) world0 None None None))))
     = [head_json_url, latest_json_url]"
proof -
  let ?p2 = "poll_feed (server ''c2'') (client [(''global'', JStr ''c2'')]) world0
      head_json_url latest_json_url ''global'' None None [''new'', ''updated'']"
  let ?p1 = "poll_feed (server ''c2'') (client [(''global'', JStr ''c1'')]) world0
      head_json_url latest_json_url ''global'' None None [''new'', ''updated'']"
  have w0: "net_log world0 = []" by (simp add: world0_def)
  note a = poll_feed_head_check[OF server_head triple[of ?p2]]
  note b = poll_feed_head_check[OF server_head triple[of ?p1]]
  have "net_log (snd (snd ?p2)) = [head_json_url]" "fst ?p2 = Inr []"
    using a by (simp_all add: client_stored head_of_def w0)
  moreover have "take 2 (net_log (snd (snd ?p1))) = [head_json_url, latest_json_url]"
    using b by (simp add: client_stored head_of_def w0 numeral_2_eq_2)
  ultimately show ?thesis
    by (simp add: poll_def urls default_buckets_def)
qed

theorem poll_feed_head_check_counterexample:
  "CursorStore_get \<lparr>path = cursor_file, CursorStore.cursors = [(''global'', JStr [])]\<rparr> ''global''
     = Some (JStr []) \<and>
   DiffDelta.cursors (client [(''global'', JStr [])])
     = Some \<lparr>path = cursor_file, CursorStore.cursors = [(''global'', JStr [])]\<rparr> \<and>
   head (server []) (client [(''global'', JStr [])]) world0 (Some head_json_url)
     = (Inr (head_of []), world0\<lparr>net_log := [head_json_url]\<rparr>) \<and>
   Head.cursor (head_of []) = JStr [] \<and>
   net_log (snd (snd (poll (server []) (client [(''global'', JStr [])]) world0 None None None)))
     = [head_json_url, latest_json_url]"
proof -
  let ?dd = "client [(''global'', JStr [])]"
  have w0: "net_log world0 = []" by (simp add: world0_def)
  have h: "head (server []) ?dd world0 (Some head_json_url)
     = (Inr (head_of []), world0\<lparr>net_log := [head_json_url]\<rparr>)"
    using server_head[of "[]" "[(''global'', JStr [])]" world0] by (simp add: w0)
  have n: "\<not> (truthy (stored_cursor ?dd ''global'') \<and>
      py_eq (stored_cursor ?dd ''global'') (Head.cursor (head_of [])))"
    by (simp add: client_stored)
  have f: "fetch_feed (server []) ?dd (world0\<lparr>net_log := [head_json_url]\<rparr>) (Some latest_json_url)
      = (Inr (feed_abc []), world0\<lparr>net_log := [head_json_url, latest_json_url]\<rparr>)"
    using server_feed[of "[]" "[(''global'', JStr [])]" "world0\<lparr>net_log := [head_json_url]\<rparr>"]
    by simp
  let ?p = "poll_feed (server []) ?dd world0 head_json_url latest_json_url ''global'' None None
      [''new'', ''updated'']"
  have "?p = filter_loop (server []) None None [''new'', ''updated''] (items (feed_abc [])) []
       (fst (snd (save_cursor ?dd (world0\<lparr>net_log := [head_json_url, latest_json_url]\<rparr>) ''global'' (feed_abc []))))
       (snd (snd (save_cursor ?dd (world0\<lparr>net_log := [head_json_url, latest_json_url]\<rparr>) ''global'' (feed_abc []))))"
    by (rule poll_feed_fetched[OF h n f]) (rule client_saves, simp_all add: world0_disk)
  then have "net_log (snd (snd ?p)) = [head_json_url, latest_json_url]"
    by (simp add: feed_abc_def filter_loop.simps save_cursor_unfold client_def)
  then have "net_log (snd (snd (poll (server []) ?dd world0 None None None)))
     = [head_json_url, latest_json_url]"
    by (simp add: poll_def urls default_buckets_def)
  then have c5: "net_log (snd (snd (poll (server []) ?dd world0 None None None)))
     = [head_json_url, latest_json_url]" .
  have c1: "CursorStore_get \<lparr>path = cursor_file, CursorStore.cursors = [(''global'', JStr [])]\<rparr>
      ''global'' = Some (JStr [])"
    by (simp add: CursorStore_get_def)
  have c2: "DiffDelta.cursors ?dd
     = Some \<lparr>path = cursor_file, CursorStore.cursors = [(''global'', JStr [])]\<rparr>"
    by (simp add: client_def)
  have c4: "Head.cursor (head_of []) = JStr []" by (simp add: head_of_def)
  show ?thesis by (rule conjI[OF c1 conjI[OF c2 conjI[OF h conjI[OF c4 c5]]]])
qed

theorem poll_feed_empty_stored_cursor_witness:
  "Head.cursor (head_of []) = JStr [] \<and>
   take 2 (net_log (snd (snd (poll (server []) (client [(''global'', JStr [])]) world0
              (Some [''security'']) None None))))
     = [head_json_url, latest_json_url]"
proof -
  let ?dd = "client [(''global'', JStr [])]"
  have c: "DiffDelta.cursors ?dd =
      Some \<lparr>path = cursor_file, CursorStore.cursors = [(''global'', JStr [])]\<rparr>"
    by (simp add: client_def)
  have g: "CursorStore_get \<lparr>path = cursor_file, CursorStore.cursors = [(''global'', JStr [])]\<rparr>
      ''global'' = Some (JStr [])"
    by (simp add: CursorStore_get_def)
  have w0: "net_log world0 = []" by (simp add: world0_def)
  note t = poll_feed_empty_stored_cursor[OF c g server_head[of "[]" _ world0], where latest_u=latest_json_url
      and tgs="Some [''security'']" and srcs=None and buckets="[''new'', ''updated'']"]
  have "take 2 (net_log (snd (snd (poll_feed (server []) ?dd world0 head_json_url latest_json_url
      ''global'' (Some [''security'']) None [''new'', ''updated'']))))
     = [head_json_url, latest_json_url]"
    using t by (simp add: w0 numeral_2_eq_2)
  then have "take 2 (net_log (snd (snd (poll (server []) ?dd world0 (Some [''security'']) None None))))
     = [head_json_url, latest_json_url]"
    by (simp add: poll_def urls default_buckets_def)
  moreover have "Head.cursor (head_of []) = JStr []" by (simp add: head_of_def)
  ultimately show ?thesis by (intro conjI)
qed

theorem poll_feed_stores_cursor_witness:
  "stored_cursor (client [(''global'', JStr ''c1'')]) ''global'' = JStr ''c1'' \<and>
   fst (poll (server ''c2'') (client [(''global'', JStr ''c1'')]) world0 None None (Some []))
     = Inr [] \<and>
   stored_cursor
     (fst (snd (poll (server ''c2'') (client [(''global'', JStr ''c1'')]) world0 None None (Some []))))
     ''global'' = JStr ''c2''"
proof -
  let ?dd = "client [(''global'', JStr ''c1'')]"
  let ?w1 = "world0\<lparr>net_log := net_log world0 @ [head_json_url]\<rparr>"
  let ?w2 = "?w1\<lparr>net_log := net_log ?w1 @ [latest_json_url]\<rparr>"
  let ?p = "poll_feed (server ''c2'') ?dd world0 head_json_url latest_json_url ''global''
      None None []"
  have h: "head (server ''c2'') ?dd world0 (Some head_json_url) = (Inr (head_of ''c2''), ?w1)"
    by (rule server_head)
  have n: "\<not> (truthy (stored_cursor ?dd ''global'') \<and>
      py_eq (stored_cursor ?dd ''global'') (Head.cursor (head_of ''c2'')))"
    by (simp add: client_stored head_of_def)
  have f: "fetch_feed (server ''c2'') ?dd ?w1 (Some latest_json_url) = (Inr (feed_abc ''c2''), ?w2)"
    by (rule server_feed)
  have c: "DiffDelta.cursors ?dd =
      Some \<lparr>path = cursor_file, CursorStore.cursors = [(''global'', JStr ''c1'')]\<rparr>"
    by (simp add: client_def)
  from poll_feed_stores_cursor[OF h n f triple[of ?p] c, of "''c2''"]
  obtain cs' where cs': "DiffDelta.cursors (fst (snd ?p)) = Some cs'"
    "CursorStore_get cs' ''global'' = Some (JStr ''c2'')"
    by (auto simp add: feed_abc_def)
  then have 3: "stored_cursor (fst (snd ?p)) ''global'' = JStr ''c2''"
    by (simp add: stored_cursor_def)
  have "?p = filter_loop (server ''c2'') None None [] (items (feed_abc ''c2'')) []
       (fst (snd (save_cursor ?dd ?w2 ''global'' (feed_abc ''c2''))))
       (snd (snd (save_cursor ?dd ?w2 ''global'' (feed_abc ''c2''))))"
    by (rule poll_feed_fetched[OF h n f]) (rule client_saves, simp_all add: world0_disk)
  then have 2: "fst ?p = Inr []"
    by (simp add: feed_abc_def filter_loop.simps)
  have 1: "stored_cursor ?dd ''global'' = JStr ''c1''" by (simp add: client_stored)
  have p: "poll (server ''c2'') ?dd world0 None None (Some []) = ?p"
    by (simp add: poll_def urls default_buckets_def)
  show ?thesis unfolding p by (rule conjI[OF 1 conjI[OF 2 3]])
qed

subsection \<open>The filter\<close>

lemma sources_result_cong:
  "base_url dd1 = base_url dd2 \<Longrightarrow> net_log w1 = net_log w2 \<Longrightarrow>
   fst (sources net dd1 w1) = fst (sources net dd2 w2)"
  by (simp add: sources_def get_json_def split: sum.splits json.splits)

lemma fetch_source_tags_cong:
  "base_url dd1 = base_url dd2 \<Longrightarrow> net_log w1 = net_log w2 \<Longrightarrow>
   fst (fetch_source_tags net dd1 w1) = fst (fetch_source_tags net dd2 w2)"
  using sources_result_cong[of dd1 dd2 w1 w2 net]
  by (cases "sources net dd1 w1"; cases "sources net dd2 w2")
     (auto simp add: fetch_source_tags_def split: sum.splits)

lemma get_source_tags_cong:
  assumes "source_tags_cache dd1 = source_tags_cache dd2"
    and "base_url dd1 = base_url dd2" and "net_log w1 = net_log w2"
  shows "fst (get_source_tags net dd1 w1) = fst (get_source_tags net dd2 w2)"
  using assms fetch_source_tags_cong[OF assms(2,3), of net]
  by (cases "fetch_source_tags net dd1 w1"; cases "fetch_source_tags net dd2 w2")
     (auto simp add: get_source_tags_def split: option.splits sum.splits)

text \<open>A failed fetch of the sources gives the empty dict, once and for all.\<close>

lemma get_source_tags_failed:
  assumes "source_tags_cache dd = None" and "fst (sources net dd w) = Inl e" and "is_Exception e"
  shows "fst (get_source_tags net dd w) = Inr []"
    and "source_tags_cache (fst (snd (get_source_tags net dd w))) = Some []"
  using assms
  by (cases "sources net dd w"; auto simp add: get_source_tags_def fetch_source_tags_def)+

text \<open>With well-typed documents (sources are strings, tags are lists) the tag test never raises.\<close>

lemma any_in_list: "\<exists>b. any_in tgs (JArr xs) = Inr b"
  by (induction tgs) auto

lemma item_hit_well_typed:
  assumes "source item = JStr s" and "\<forall>p\<in>set t. \<exists>xs. snd p = JArr xs"
  shows "\<exists>b. item_hit t tgs item = Inr b"
proof (cases "find (\<lambda>p. py_eq (fst p) (JStr s)) t")
  case None
  with assms(1) any_in_list[of tgs "[]"] show ?thesis
    by (simp add: item_hit_def pydict_get_def)
next
  case (Some p)
  then have "p \<in> set t" by (auto simp add: find_Some_iff)
  with assms(2) obtain xs where "snd p = JArr xs" by auto
  with Some assms(1) any_in_list[of tgs xs] show ?thesis
    by (simp add: item_hit_def pydict_get_def)
qed

lemma item_hit_empty: "item_hit [] tgs item \<noteq> Inr True"
proof -
  have "any_in tgs (JArr []) = Inr False" by (induction tgs) auto
  then show ?thesis by (simp add: item_hit_def pydict_get_def)
qed

text \<open>
  C5, as the code has it. After the full feed was fetched and its cursor saved without an
  exception, and when the tag test raises for no item that reaches it, the poll returns the items of the feed, in their order,
  that pass all three tests: the bucket is in the bucket list; the source list is
  \<open>None\<close> or empty, or holds the item's source; the tag list is \<open>None\<close> or empty, or the
  source-to-tags dict \<open>t\<close> (the cached one, else the one fetched now, else the empty one
  when that fetch fails) gives the item's source a tag of the list. With the empty dict
  a tag filter keeps nothing.
\<close>

theorem poll_feed_filter:
  assumes h: "head net dd w (Some head_u) = (Inr h, w1)"
    and n: "\<not> (truthy (stored_cursor dd key) \<and> py_eq (stored_cursor dd key) (Head.cursor h))"
    and f: "fetch_feed net dd w1 (Some latest_u) = (Inr feed, w2)"
    and s: "fst (save_cursor dd w2 key feed) = None"
    and t: "given tgs \<longrightarrow> fst (get_source_tags net dd w2) = Inr t"
    and ok: "given tgs \<longrightarrow> (\<forall>item\<in>set (items feed). passes srcs buckets item \<longrightarrow>
               (\<exists>b. item_hit t (the tgs) item = Inr b))"
  shows "fst (poll_feed net dd w head_u latest_u key tgs srcs buckets) =
           Inr (filter (keeps t tgs srcs buckets) (items feed)) \<and>
         (given tgs \<and> t = [] \<longrightarrow> filter (keeps t tgs srcs buckets) (items feed) = [])"
proof -
  let ?dd3 = "fst (snd (save_cursor dd w2 key feed))"
  let ?w3 = "snd (snd (save_cursor dd w2 key feed))"
  have "fst (get_source_tags net ?dd3 ?w3) = fst (get_source_tags net dd w2)"
    by (rule get_source_tags_cong) (simp_all add: save_cursor_frame)
  with t have t3: "given tgs \<longrightarrow> fst (get_source_tags net ?dd3 ?w3) = Inr t" by simp
  have "fst (poll_feed net dd w head_u latest_u key tgs srcs buckets) =
      fst (filter_loop net tgs srcs buckets (items feed) [] ?dd3 ?w3)"
    by (simp add: poll_feed_fetched[OF h n f s])
  also have "\<dots> = Inr ([] @ filter (keeps t tgs srcs buckets) (items feed))"
    by (rule filter_loop_result[OF t3 ok])
  finally have 1: "fst (poll_feed net dd w head_u latest_u key tgs srcs buckets) =
           Inr (filter (keeps t tgs srcs buckets) (items feed))" by simp
  have 2: "given tgs \<and> t = [] \<longrightarrow> filter (keeps t tgs srcs buckets) (items feed) = []"
    by (auto simp add: keeps_def item_hit_empty filter_empty_conv)
  from 1 2 show ?thesis by (rule conjI)
qed

lemma server_source_tags:
  "source_tags_cache dd = None \<Longrightarrow> base_url dd = DEFAULT_BASE_URL \<Longrightarrow>
   fst (get_source_tags (server c) dd w) = Inr tags_table"
  by (simp add: get_source_tags_def fetch_source_tags_def sources_def get_json_def server_def
      DEFAULT_BASE_URL_def head_json_url_def latest_json_url_def sources_json_url_def
      sources_doc_def dget_def pydict_set_def tags_table_def)

lemma tags_table_hits:
  "item_hit tags_table [''security''] (mk_item ''src1'' i b) = Inr True"
  "item_hit tags_table [''security''] (mk_item ''src2'' i b) = Inr False"
  by (simp_all add: item_hit_def pydict_get_def tags_table_def mk_item_def)

theorem poll_feed_filter_witness:
  "fst (poll (server ''c2'') (client []) world0 (Some [''security'']) None None)
     = Inr [mk_item ''src1'' ''A'' ''new'']"
proof -
  let ?dd = "client []"
  let ?w1 = "world0\<lparr>net_log := net_log world0 @ [head_json_url]\<rparr>"
  let ?w2 = "?w1\<lparr>net_log := net_log ?w1 @ [latest_json_url]\<rparr>"
  have h: "head (server ''c2'') ?dd world0 (Some head_json_url) = (Inr (head_of ''c2''), ?w1)"
    by (rule server_head)
  have n: "\<not> (truthy (stored_cursor ?dd ''global'') \<and>
      py_eq (stored_cursor ?dd ''global'') (Head.cursor (head_of ''c2'')))"
    by (simp add: client_stored)
  have f: "fetch_feed (server ''c2'') ?dd ?w1 (Some latest_json_url) = (Inr (feed_abc ''c2''), ?w2)"
    by (rule server_feed)
  have t: "given (Some [''security'']) \<longrightarrow> fst (get_source_tags (server ''c2'') ?dd ?w2) = Inr tags_table"
    by (simp add: server_source_tags client_def)
  have ok: "given (Some [''security'']) \<longrightarrow>
      (\<forall>item\<in>set (items (feed_abc ''c2'')). passes None [''new'', ''updated''] item \<longrightarrow>
         (\<exists>b. item_hit tags_table (the (Some [''security''])) item = Inr b))"
    by (auto simp add: feed_abc_def tags_table_hits)
  have k: "filter (keeps tags_table (Some [''security'']) None [''new'', ''updated''])
      (items (feed_abc ''c2'')) = [mk_item ''src1'' ''A'' ''new'']"
    by (simp add: feed_abc_def keeps_def passes_def tags_table_hits)
       (simp add: mk_item_def)
  have s: "fst (save_cursor ?dd ?w2 ''global'' (feed_abc ''c2'')) = None"
    by (rule client_saves) (simp_all add: world0_disk)
  from poll_feed_filter[OF h n f s t ok]
  have "fst (poll_feed (server ''c2'') ?dd world0 head_json_url latest_json_url ''global''
      (Some [''security'']) None [''new'', ''updated'']) = Inr [mk_item ''src1'' ''A'' ''new'']"
    by (simp only: k)
  then show ?thesis
    by (simp add: poll_def urls default_buckets_def)
qed

theorem poll_feed_filter_counterexample:
  "fetch_feed (server ''c2'') (client []) (world0\<lparr>net_log := net_log world0 @ [head_json_url]\<rparr>)
     (Some latest_json_url)
     = (Inr (feed_abc ''c2''),
        world0\<lparr>net_log := net_log world0 @ [head_json_url]\<rparr>
          \<lparr>net_log := net_log (world0\<lparr>net_log := net_log world0 @ [head_json_url]\<rparr>) @
             [latest_json_url]\<rparr>) \<and>
   filter (keeps_as_claimed [] None (Some []) [''new'', ''updated'']) (items (feed_abc ''c2'')) = [] \<and>
   fst (poll (server ''c2'') (client []) world0 None (Some []) None)
     = Inr [mk_item ''src1'' ''A'' ''new'', mk_item ''src2'' ''B'' ''updated'']"
proof -
  let ?dd = "client []"
  let ?w1 = "world0\<lparr>net_log := net_log world0 @ [head_json_url]\<rparr>"
  let ?w2 = "?w1\<lparr>net_log := net_log ?w1 @ [latest_json_url]\<rparr>"
  have h: "head (server ''c2'') ?dd world0 (Some head_json_url) = (Inr (head_of ''c2''), ?w1)"
    by (rule server_head)
  have n: "\<not> (truthy (stored_cursor ?dd ''global'') \<and>
      py_eq (stored_cursor ?dd ''global'') (Head.cursor (head_of ''c2'')))"
    by (simp add: client_stored)
  have f: "fetch_feed (server ''c2'') ?dd ?w1 (Some latest_json_url) = (Inr (feed_abc ''c2''), ?w2)"
    by (rule server_feed)
  have 2: "filter (keeps_as_claimed [] None (Some []) [''new'', ''updated''])
      (items (feed_abc ''c2'')) = []"
    by (simp add: keeps_as_claimed_def feed_abc_def)
  have "poll_feed (server ''c2'') ?dd world0 head_json_url latest_json_url ''global''
      None (Some []) [''new'', ''updated''] =
     filter_loop (server ''c2'') None (Some []) [''new'', ''updated''] (items (feed_abc ''c2'')) []
       (fst (snd (save_cursor ?dd ?w2 ''global'' (feed_abc ''c2''))))
       (snd (snd (save_cursor ?dd ?w2 ''global'' (feed_abc ''c2''))))"
    by (rule poll_feed_fetched[OF h n f]) (rule client_saves, simp_all add: world0_disk)
  then have "fst (poll_feed (server ''c2'') ?dd world0 head_json_url latest_json_url ''global''
      None (Some []) [''new'', ''updated'']) =
      Inr [mk_item ''src1'' ''A'' ''new'', mk_item ''src2'' ''B'' ''updated'']"
    by (simp add: feed_abc_def filter_loop.simps mk_item_def)
  then have 3: "fst (poll (server ''c2'') ?dd world0 None (Some []) None)
     = Inr [mk_item ''src1'' ''A'' ''new'', mk_item ''src2'' ''B'' ''updated'']"
    by (simp add: poll_def urls default_buckets_def)
  show ?thesis by (rule conjI[OF f conjI[OF 2 3]])
qed

section \<open>Properties of the watch loop\<close>

lemma dispatch_append_both:
  "dispatch cb pre h w = (None, h1, w1) \<Longrightarrow>
   dispatch cb (pre @ rest) h w = dispatch cb rest h1 w1 \<and> dispatched w1 = dispatched w @ pre"
proof (induction pre arbitrary: h w)
  case Nil
  then show ?case by simp
next
  case (Cons item pre)
  obtain r h' where c: "cb h item = (r, h')" by (cases "cb h item")
  show ?case
  proof (cases r)
    case None
    with c Cons.prems
    have "dispatch cb pre h' (w\<lparr>dispatched := dispatched w @ [item]\<rparr>) = (None, h1, w1)"
      by simp
    from Cons.IH[OF this] c None show ?thesis by simp
  next
    case (Some e)
    with c Cons.prems show ?thesis by simp
  qed
qed

lemma dispatch_append:
  assumes "dispatch cb pre h w = (None, h1, w1)"
  shows "dispatch cb (pre @ rest) h w = dispatch cb rest h1 w1"
    and "dispatched w1 = dispatched w @ pre"
  using dispatch_append_both[OF assms] by simp_all


lemma watch_try_handler_raises:
  assumes p: "poll net dd w tgs srcs (Some buckets) = (Inr (pre @ item # post), dd', w')"
    and d: "dispatch cb pre h (print (Found (length (pre @ item # post))) w') = (None, h1, w1)"
    and c: "cb h1 item = (Some e, h2)"
    and e: "is_Exception e"
  shows "watch_try net cb tgs srcs buckets interval dd w h =
           (Continue, dd', print (ErrorRetrying e interval)
              (w1\<lparr>dispatched := dispatched w1 @ [item]\<rparr>), h2)"
    and "dispatched w1 = dispatched w' @ pre"
proof -
  from dispatch_append(1)[OF d, of "item # post"] c
  have "dispatch cb (pre @ item # post) h (print (Found (length (pre @ item # post))) w') =
      (Some e, h2, w1\<lparr>dispatched := dispatched w1 @ [item]\<rparr>)"
    by simp
  with p e show "watch_try net cb tgs srcs buckets interval dd w h =
           (Continue, dd', print (ErrorRetrying e interval)
              (w1\<lparr>dispatched := dispatched w1 @ [item]\<rparr>), h2)"
    by (auto simp add: watch_try_def watch_body_def)
  from dispatch_append(2)[OF d] show "dispatched w1 = dispatched w' @ pre"
    by (simp add: print_def)
qed

lemma watch_try_no_items:
  "poll net dd w tgs srcs (Some buckets) = (Inr [], dd', w') \<Longrightarrow>
   watch_try net cb tgs srcs buckets interval dd w h = (Continue, dd', print NoChanges w', h)"
  by (simp add: watch_try_def watch_body_def)


lemma time_sleep_never:
  "0 \<le> secs \<Longrightarrow> secs * 10 ^ 9 < 2 ^ 63 \<Longrightarrow>
   time_sleep never w secs = (None, w\<lparr>sleeps := sleeps w @ [secs]\<rparr>)"
  by (simp add: time_sleep_def never_def)

lemma watch_loop_next:
  assumes "watch_try net cb tgs srcs buckets interval dd w h = (Continue, dd1, w2, h3)"
    and "time_sleep sig w2 interval = (None, w3)"
  shows "watch_loop (Suc n) net sig cb tgs srcs buckets interval dd w h =
           watch_loop n net sig cb tgs srcs buckets interval dd1 w3 h3"
  using assms by simp


text \<open>The runs of the examples.\<close>

lemma store_new_saved:
  assumes "fault fs = (\<lambda>c. None)" and "dump_fault fs = (\<lambda>v. None)"
  shows "fst (CursorStore_set store_new fs key c) = None"
  using assms
  by (simp add: CursorStore_set_unfold CursorStore_save_result store_new_def
      save_body_def os_makedirs_def write_json_def cursor_file_no_NUL)

lemma server_poll_first:
  assumes "fault (disk w) = (\<lambda>c. None)" and "dump_fault (disk w) = (\<lambda>v. None)"
  shows "poll (server ''c2'') (client []) w None None (Some [''new'', ''updated'']) =
     (Inr [mk_item ''src1'' ''A'' ''new'', mk_item ''src2'' ''B'' ''updated''],
      client [(''global'', JStr ''c2'')],
      w\<lparr>net_log := net_log w @ [head_json_url, latest_json_url],
        disk := snd (snd (CursorStore_set store_new (disk w) ''global'' (JStr ''c2'')))\<rparr>)"
proof -
  let ?dd = "client []"
  let ?w1 = "w\<lparr>net_log := net_log w @ [head_json_url]\<rparr>"
  let ?w2 = "?w1\<lparr>net_log := net_log ?w1 @ [latest_json_url]\<rparr>"
  have h: "head (server ''c2'') ?dd w (Some head_json_url) = (Inr (head_of ''c2''), ?w1)"
    by (rule server_head)
  have n: "\<not> (truthy (stored_cursor ?dd ''global'') \<and>
      py_eq (stored_cursor ?dd ''global'') (Head.cursor (head_of ''c2'')))"
    by (simp add: client_stored)
  have f: "fetch_feed (server ''c2'') ?dd ?w1 (Some latest_json_url) = (Inr (feed_abc ''c2''), ?w2)"
    by (rule server_feed)
  have s: "save_cursor ?dd ?w2 ''global'' (feed_abc ''c2'') =
      (None, client [(''global'', JStr ''c2'')],
       ?w2\<lparr>disk := snd (snd (CursorStore_set store_new (disk w) ''global'' (JStr ''c2'')))\<rparr>)"
    using store_new_saved[OF assms, of "''global''" "JStr ''c2''"]
    by (simp add: save_cursor_unfold client_def feed_abc_def store_new_def)
  have "poll_feed (server ''c2'') ?dd w head_json_url latest_json_url ''global'' None None
      [''new'', ''updated''] =
     filter_loop (server ''c2'') None None [''new'', ''updated''] (items (feed_abc ''c2'')) []
       (fst (snd (save_cursor ?dd ?w2 ''global'' (feed_abc ''c2''))))
       (snd (snd (save_cursor ?dd ?w2 ''global'' (feed_abc ''c2''))))"
    by (rule poll_feed_fetched[OF h n f]) (rule client_saves, simp_all add: assms)
  then have "poll_feed (server ''c2'') ?dd w head_json_url latest_json_url ''global'' None None
      [''new'', ''updated''] =
     (Inr [mk_item ''src1'' ''A'' ''new'', mk_item ''src2'' ''B'' ''updated''],
      client [(''global'', JStr ''c2'')],
      w\<lparr>net_log := net_log w @ [head_json_url, latest_json_url],
        disk := snd (snd (CursorStore_set store_new (disk w) ''global'' (JStr ''c2'')))\<rparr>)"
    unfolding s by (simp add: feed_abc_def filter_loop.simps mk_item_def)
  then show ?thesis
    by (simp add: poll_def urls default_buckets_def)
qed

lemma server_poll_unchanged:
  "poll (server ''c2'') (client [(''global'', JStr ''c2'')]) w None None (Some [''new'', ''updated'']) =
     (Inr [], client [(''global'', JStr ''c2'')], w\<lparr>net_log := net_log w @ [head_json_url]\<rparr>)"
proof -
  let ?dd = "client [(''global'', JStr ''c2'')]"
  have h: "head (server ''c2'') ?dd w (Some head_json_url) =
      (Inr (head_of ''c2''), w\<lparr>net_log := net_log w @ [head_json_url]\<rparr>)"
    by (rule server_head)
  have y: "truthy (stored_cursor ?dd ''global'') \<and>
      py_eq (stored_cursor ?dd ''global'') (Head.cursor (head_of ''c2''))"
    by (simp add: client_stored head_of_def)
  from poll_feed_unchanged[OF h y, of latest_json_url None None "[''new'', ''updated'']"]
  show ?thesis by (simp add: poll_def urls default_buckets_def)
qed


lemma fail_on_A:
  "fail_on (JStr ''A'') h (mk_item ''src1'' ''A'' ''new'') = (Some (RuntimeError ''handler failed''), h)"
  "fail_on (JStr ''A'') h (mk_item ''src2'' ''B'' ''updated'') = (None, h)"
  by (simp_all add: fail_on_def mk_item_def)

lemma first_pass:
  assumes "fault (disk w) = (\<lambda>c. None)" and "dump_fault (disk w) = (\<lambda>v. None)"
  shows "\<exists>w'. watch_try (server ''c2'') (fail_on (JStr ''A'')) None None [''new'', ''updated''] i
           (client []) w () = (Continue, client [(''global'', JStr ''c2'')], w', ()) \<and>
        dispatched w' = dispatched w @ [mk_item ''src1'' ''A'' ''new''] \<and> sleeps w' = sleeps w"
proof -
  let ?w' = "w\<lparr>net_log := net_log w @ [head_json_url, latest_json_url],
        disk := snd (snd (CursorStore_set store_new (disk w) ''global'' (JStr ''c2'')))\<rparr>"
  have p: "poll (server ''c2'') (client []) w None None (Some [''new'', ''updated'']) =
     (Inr ([] @ mk_item ''src1'' ''A'' ''new'' # [mk_item ''src2'' ''B'' ''updated'']),
      client [(''global'', JStr ''c2'')], ?w')"
    using server_poll_first[OF assms] by simp
  have d: "dispatch (fail_on (JStr ''A'')) [] ()
      (print (Found (length ([] @ mk_item ''src1'' ''A'' ''new'' # [mk_item ''src2'' ''B'' ''updated'']))) ?w')
      = (None, (),
         print (Found (length ([] @ mk_item ''src1'' ''A'' ''new'' # [mk_item ''src2'' ''B'' ''updated'']))) ?w')"
    by (simp only: dispatch.simps)
  have x: "is_Exception (RuntimeError ''handler failed'')" by simp
  note t = watch_try_handler_raises(1)[OF p d fail_on_A(1) x, of i]
  show ?thesis
    by (rule exI, rule conjI, rule t) (simp add: print_def)
qed

lemma later_pass:
  "\<exists>w'. watch_try (server ''c2'') cb None None [''new'', ''updated''] i
           (client [(''global'', JStr ''c2'')]) w h =
             (Continue, client [(''global'', JStr ''c2'')], w', h) \<and>
        dispatched w' = dispatched w \<and> sleeps w' = sleeps w"
proof -
  note p = server_poll_unchanged[of w]
  from watch_try_no_items[OF p, of cb i h] show ?thesis
    by (simp add: print_def)
qed

text \<open>
  Two passes of \<open>watch\<close> over the batch \<open>[A, B]\<close> with a callback that raises for \<open>A\<close>.
\<close>

lemma watch_run:
  "\<exists>w'. watch 2 (server ''c2'') never (fail_on (JStr ''A'')) None None (Some 60) None
           (client []) world0 () = (Continue, client [(''global'', JStr ''c2'')], w', ()) \<and>
        dispatched w' = [mk_item ''src1'' ''A'' ''new'']"
proof -
  let ?cb = "fail_on (JStr ''A'')"
  let ?bs = "[''new'', ''updated'']"
  let ?w0 = "print PressCtrlC (print (Watching 60) world0)"
  have w0: "dispatched ?w0 = []" "sleeps ?w0 = []"
    "fault (disk ?w0) = (\<lambda>c. None)" "dump_fault (disk ?w0) = (\<lambda>v. None)"
    by (simp_all add: print_def world0_def fs_empty_def)
  from first_pass[OF w0(3,4), of 60] obtain w1 where
    1: "watch_try (server ''c2'') ?cb None None ?bs 60 (client []) ?w0 () =
          (Continue, client [(''global'', JStr ''c2'')], w1, ())"
    and d1: "dispatched w1 = [mk_item ''src1'' ''A'' ''new'']" and s1: "sleeps w1 = []"
    using w0(1,2) by auto
  let ?w1 = "w1\<lparr>sleeps := sleeps w1 @ [60]\<rparr>"
  from later_pass[of ?cb 60 ?w1 "()"] obtain w2 where
    2: "watch_try (server ''c2'') ?cb None None ?bs 60 (client [(''global'', JStr ''c2'')]) ?w1 () =
          (Continue, client [(''global'', JStr ''c2'')], w2, ())"
    and d2: "dispatched w2 = [mk_item ''src1'' ''A'' ''new'']" and s2: "sleeps w2 = [60]"
    using d1 s1 by auto
  have l1: "watch_loop (Suc (Suc 0)) (server ''c2'') never ?cb None None ?bs 60 (client []) ?w0 () =
      watch_loop (Suc 0) (server ''c2'') never ?cb None None ?bs 60
        (client [(''global'', JStr ''c2'')]) ?w1 ()"
    by (rule watch_loop_next[where sig=never, OF 1]) (rule time_sleep_never, simp_all)
  have l2: "watch_loop (Suc 0) (server ''c2'') never ?cb None None ?bs 60
        (client [(''global'', JStr ''c2'')]) ?w1 () =
      watch_loop 0 (server ''c2'') never ?cb None None ?bs 60
        (client [(''global'', JStr ''c2'')]) (w2\<lparr>sleeps := sleeps w2 @ [60]\<rparr>) ()"
    by (rule watch_loop_next[where sig=never, OF 2]) (rule time_sleep_never, simp_all)
  have "watch 2 (server ''c2'') never ?cb None None (Some 60) None (client []) world0 () =
      (Continue, client [(''global'', JStr ''c2'')], w2\<lparr>sleeps := sleeps w2 @ [60]\<rparr>, ())"
    unfolding watch_def watch_interval_def
    by (simp add: default_buckets_def numeral_2_eq_2 l1 l2 del: watch_loop.simps(2))
  with d2 show ?thesis by simp
qed



section \<open>Properties of the cursor table\<close>

lemma fetched_cursors_iff:
  "c \<in> set (fetched_cursors net w w' u) \<longleftrightarrow>
     (\<exists>i feed. length (net_log w) \<le> i \<and> fetched_feed net w' i u = Some feed \<and> Feed.cursor feed = c)"
proof
  assume "c \<in> set (fetched_cursors net w w' u)"
  then show "\<exists>i feed. length (net_log w) \<le> i \<and> fetched_feed net w' i u = Some feed \<and>
      Feed.cursor feed = c"
    by (auto simp add: fetched_cursors_def split: option.splits) (metis)
next
  assume "\<exists>i feed. length (net_log w) \<le> i \<and> fetched_feed net w' i u = Some feed \<and>
      Feed.cursor feed = c"
  then obtain i feed where i: "length (net_log w) \<le> i"
    and f: "fetched_feed net w' i u = Some feed" and c: "Feed.cursor feed = c"
    by blast
  from f have "i < length (net_log w')" by (simp add: fetched_feed_def split: if_splits)
  with i f c show "c \<in> set (fetched_cursors net w w' u)"
    by (auto simp add: fetched_cursors_def intro!: bexI[where x=i])
qed

lemma fetched_feed_mono:
  "fetched_feed net wb i u = Some feed \<Longrightarrow> net_log w' = net_log wb @ ys \<Longrightarrow>
   fetched_feed net w' i u = Some feed"
  by (auto simp add: fetched_feed_def nth_append split: if_splits)

lemma fetched_cursors_mono:
  assumes "net_log wa = net_log w @ xs" and "net_log w' = net_log wb @ ys"
    and "c \<in> set (fetched_cursors net wa wb u)"
  shows "c \<in> set (fetched_cursors net w w' u)"
proof -
  from assms(3) obtain i feed where i: "length (net_log wa) \<le> i"
    and f: "fetched_feed net wb i u = Some feed" and c: "Feed.cursor feed = c"
    by (auto simp add: fetched_cursors_iff)
  from i assms(1) have "length (net_log w) \<le> i" by simp
  with fetched_feed_mono[OF f assms(2)] c show ?thesis
    by (auto simp add: fetched_cursors_iff)
qed

lemma cursor_kept_refl: "cursor_kept_or_fetched net dd w dd w' key u k"
  by (simp add: cursor_kept_or_fetched_def)

lemma cursor_kept_trans:
  assumes 1: "cursor_kept_or_fetched net dd w dd1 w1 key u k"
    and 2: "cursor_kept_or_fetched net dd1 w1' dd' w' key u k"
    and a: "net_log w1 = net_log w @ xs" and b: "net_log w1' = net_log w1 @ ys"
    and c: "net_log w' = net_log w1' @ zs"
  shows "cursor_kept_or_fetched net dd w dd' w' key u k"
proof (cases "stored_cursor dd' k = stored_cursor dd1 k")
  case True
  show ?thesis
  proof (cases "stored_cursor dd1 k = stored_cursor dd k")
    case True
    with \<open>stored_cursor dd' k = stored_cursor dd1 k\<close> show ?thesis
      by (simp add: cursor_kept_or_fetched_def)
  next
    case False
    with 1 have k: "k = key" and t: "truthy (stored_cursor dd1 k)"
      and m: "stored_cursor dd1 k \<in> set (fetched_cursors net w w1 u)"
      by (auto simp add: cursor_kept_or_fetched_def)
    from b c have "net_log w' = net_log w1 @ (ys @ zs)" by simp
    from fetched_cursors_mono[where xs="[]", OF _ this m]
    have "stored_cursor dd1 k \<in> set (fetched_cursors net w w' u)" by simp
    with k t True show ?thesis by (simp add: cursor_kept_or_fetched_def)
  qed
next
  case False
  with 2 have k: "k = key" and t: "truthy (stored_cursor dd' k)"
    and m: "stored_cursor dd' k \<in> set (fetched_cursors net w1' w' u)"
    by (auto simp add: cursor_kept_or_fetched_def)
  from a b have "net_log w1' = net_log w @ (xs @ ys)" by simp
  from fetched_cursors_mono[where ys="[]", OF this _ m]
  have "stored_cursor dd' k \<in> set (fetched_cursors net w w' u)" by simp
  with k t show ?thesis by (simp add: cursor_kept_or_fetched_def)
qed

lemma stored_cursor_cong:
  "DiffDelta.cursors dd' = DiffDelta.cursors dd \<Longrightarrow> stored_cursor dd' k = stored_cursor dd k"
  by (simp add: stored_cursor_def)

lemma poll_feed_cursor_all:
  assumes p: "poll_feed net dd w head_u latest_u key tgs srcs buckets = (r, dd', w')"
  shows "cursor_kept_or_fetched net dd w dd' w' key latest_u k \<and> base_url dd' = base_url dd \<and>
         (\<exists>xs. net_log w' = net_log w @ xs)"
proof -
  obtain x w1 where h: "head net dd w (Some head_u) = (x, w1)"
    by (cases "head net dd w (Some head_u)")
  with head_world[of net dd w "Some head_u"]
  have w1: "w1 = w\<lparr>net_log := net_log w @ [head_u]\<rparr>" by simp
  then have e1: "\<exists>xs. net_log w1 = net_log w @ xs" by simp
  show ?thesis
  proof (cases x)
    case (Inl e)
    with poll_feed_head_raises[of net dd w head_u e w1 latest_u key tgs srcs buckets] h p
    have "dd' = dd" and "w' = w1" by simp_all
    with e1 show ?thesis by (simp add: cursor_kept_refl)
  next
    case (Inr hd)
    with h have h': "head net dd w (Some head_u) = (Inr hd, w1)" by simp
    show ?thesis
    proof (cases "truthy (stored_cursor dd key) \<and> py_eq (stored_cursor dd key) (Head.cursor hd)")
      case True
      from poll_feed_unchanged[OF h' True, of latest_u tgs srcs buckets] p
      have "dd' = dd" and "w' = w1" by simp_all
      with e1 show ?thesis by (simp add: cursor_kept_refl)
    next
      case False
      obtain y w2 where f: "fetch_feed net dd w1 (Some latest_u) = (y, w2)"
        by (cases "fetch_feed net dd w1 (Some latest_u)")
      with fetch_feed_world[of net dd w1 "Some latest_u"] w1
      have w2: "net_log w2 = net_log w @ [head_u, latest_u]" by simp
      show ?thesis
      proof (cases y)
        case (Inl e)
        with poll_feed_feed_raises[OF h' False, of latest_u e w2 tgs srcs buckets] f p
        have "dd' = dd" and "w' = w2" by simp_all
        with w2 show ?thesis by (simp add: cursor_kept_refl)
      next
        case (Inr feed)
        with f have f': "fetch_feed net dd w1 (Some latest_u) = (Inr feed, w2)" by simp
        note fr = poll_feed_fetched_frame[OF h' False f' p]
        from fr(3) w2 obtain ys where ys: "net_log w' = net_log w @ [head_u, latest_u] @ ys"
          by auto
        from fetch_feed_result[of net dd w1 latest_u] f' w1
        have "(case net (Suc (length (net_log w))) latest_u of
                 Inl e \<Rightarrow> Inl e | Inr doc \<Rightarrow> Feed_from_raw doc) = Inr feed"
          by simp
        with ys have ff: "fetched_feed net w' (Suc (length (net_log w))) latest_u = Some feed"
          by (auto simp add: fetched_feed_def nth_append split: sum.splits)
        have s: "stored_cursor dd' k =
            (if DiffDelta.cursors dd \<noteq> None \<and> truthy (Feed.cursor feed) \<and> k = key
             then Feed.cursor feed else stored_cursor dd k)"
          using stored_cursor_cong[OF fr(1), of k] by (simp add: save_cursor_stored)
        have "cursor_kept_or_fetched net dd w dd' w' key latest_u k"
        proof (cases "DiffDelta.cursors dd \<noteq> None \<and> truthy (Feed.cursor feed) \<and> k = key")
          case True
          with s ff show ?thesis
            by (auto simp add: cursor_kept_or_fetched_def fetched_cursors_iff
                intro!: exI[where x="Suc (length (net_log w))"])
        next
          case False
          with s show ?thesis by (auto simp add: cursor_kept_or_fetched_def)
        qed
        with fr(2) ys show ?thesis by blast
      qed
    qed
  qed
qed

lemma poll_cursor:
  assumes "poll net dd w tgs srcs bks = (r, dd', w')"
  shows "cursor_kept_or_fetched net dd w dd' w' ''global'' (base_url dd @ ''/diff/latest.json'') k"
    and "base_url dd' = base_url dd" and "\<exists>xs. net_log w' = net_log w @ xs"
  using poll_feed_cursor_all[OF assms[unfolded poll_def], of k] by simp_all

lemma poll_source_cursor:
  assumes "poll_source net dd w sid bks = (r, dd', w')"
  shows "cursor_kept_or_fetched net dd w dd' w' (''source:'' @ sid)
           (base_url dd @ ''/diff/source/'' @ sid @ ''/latest.json'') k"
  using poll_feed_cursor_all[OF assms[unfolded poll_source_def], of k] by simp

text \<open>A poll whose only request was the head has changed neither the client nor the disk.\<close>

lemma poll_feed_head_only:
  assumes p: "poll_feed net dd w head_u latest_u key tgs srcs buckets = (r, dd', w')"
    and l: "net_log w' = net_log w @ [head_u]"
  shows "dd' = dd" and "disk w' = disk w"
proof -
  obtain x w1 where h: "head net dd w (Some head_u) = (x, w1)"
    by (cases "head net dd w (Some head_u)")
  with head_world[of net dd w "Some head_u"]
  have w1: "w1 = w\<lparr>net_log := net_log w @ [head_u]\<rparr>" by simp
  have "dd' = dd \<and> w' = w1"
  proof (cases x)
    case (Inl e)
    with poll_feed_head_raises[of net dd w head_u e w1 latest_u key tgs srcs buckets] h p
    show ?thesis by simp
  next
    case (Inr hd)
    with h have h': "head net dd w (Some head_u) = (Inr hd, w1)" by simp
    show ?thesis
    proof (cases "truthy (stored_cursor dd key) \<and> py_eq (stored_cursor dd key) (Head.cursor hd)")
      case True
      from poll_feed_unchanged[OF h' True, of latest_u tgs srcs buckets] p show ?thesis by simp
    next
      case False
      from poll_feed_fetches[OF h' False p] l show ?thesis by simp
    qed
  qed
  with w1 show "dd' = dd" and "disk w' = disk w" by simp_all
qed

lemma dispatch_frame:
  "dispatch cb its h w = (r, h', w') \<Longrightarrow> net_log w' = net_log w \<and> disk w' = disk w"
proof (induction its arbitrary: h w)
  case Nil
  then show ?case by simp
next
  case (Cons item its)
  obtain x h1 where c: "cb h item = (x, h1)" by (cases "cb h item")
  show ?case
  proof (cases x)
    case None
    with c Cons.prems
    have "dispatch cb its h1 (w\<lparr>dispatched := dispatched w @ [item]\<rparr>) = (r, h', w')" by simp
    from Cons.IH[OF this] show ?thesis by simp
  next
    case (Some e)
    with c Cons.prems show ?thesis by auto
  qed
qed

lemma watch_try_frame:
  assumes "watch_try net cb tgs srcs buckets interval dd w h = (fl, dd1, w1, h1)"
  shows "\<exists>r wp. poll net dd w tgs srcs (Some buckets) = (r, dd1, wp) \<and> net_log w1 = net_log wp"
proof -
  obtain r dp wp where p: "poll net dd w tgs srcs (Some buckets) = (r, dp, wp)"
    by (cases "poll net dd w tgs srcs (Some buckets)")
  show ?thesis
  proof (cases r)
    case (Inl e)
    with p assms show ?thesis
      by (auto simp add: watch_try_def watch_body_def print_def split: if_splits)
  next
    case (Inr its)
    show ?thesis
    proof (cases "its = []")
      case True
      with p Inr assms show ?thesis
        by (auto simp add: watch_try_def watch_body_def print_def)
    next
      case False
      obtain x h2 w2 where d: "dispatch cb its h (print (Found (length its)) wp) = (x, h2, w2)"
        by (cases "dispatch cb its h (print (Found (length its)) wp)")
      from dispatch_frame[OF d] have "net_log w2 = net_log wp" by (simp add: print_def)
      with p Inr False d assms show ?thesis
        by (cases x) (auto simp add: watch_try_def watch_body_def print_def split: if_splits)
    qed
  qed
qed

lemma time_sleep_frame: "net_log (snd (time_sleep sig w secs)) = net_log w"
  by (simp add: time_sleep_def)

lemma watch_loop_cursor:
  "watch_loop n net sig cb tgs srcs buckets interval dd w h = (fl, dd', w', h') \<Longrightarrow>
   cursor_kept_or_fetched net dd w dd' w' ''global'' (base_url dd @ ''/diff/latest.json'') k \<and>
   (\<exists>xs. net_log w' = net_log w @ xs)"
proof (induction n arbitrary: dd w h)
  case 0
  then show ?case by (simp add: cursor_kept_refl)
next
  case (Suc n)
  let ?u = "base_url dd @ ''/diff/latest.json''"
  obtain f1 dd1 w1 h1 where t: "watch_try net cb tgs srcs buckets interval dd w h = (f1, dd1, w1, h1)"
    by (cases "watch_try net cb tgs srcs buckets interval dd w h") auto
  from watch_try_frame[OF t] obtain r wp where
    p: "poll net dd w tgs srcs (Some buckets) = (r, dd1, wp)" and l1: "net_log w1 = net_log wp"
    by blast
  from poll_cursor(1)[OF p, of k] poll_cursor(2,3)[OF p] l1 obtain xs where
    c1: "cursor_kept_or_fetched net dd w dd1 wp ''global'' ?u k"
    and b1: "base_url dd1 = base_url dd" and x1: "net_log w1 = net_log w @ xs"
    and xp: "net_log wp = net_log w @ xs"
    by auto
  have stop: "cursor_kept_or_fetched net dd w dd1 w2 ''global'' ?u k \<and>
      (\<exists>xs. net_log w2 = net_log w @ xs)" if "net_log w2 = net_log w1" for w2
  proof
    from that l1 have "net_log w2 = net_log wp @ []" and "net_log w2 = net_log w2 @ []"
      by simp_all
    from cursor_kept_trans[OF c1 cursor_kept_refl xp this]
    show "cursor_kept_or_fetched net dd w dd1 w2 ''global'' ?u k" .
    from that x1 have "net_log w2 = net_log w @ xs" by simp
    then show "\<exists>xs. net_log w2 = net_log w @ xs" ..
  qed
  show ?case
  proof (cases f1)
    case Continue
    obtain y w2 where s: "time_sleep sig w1 interval = (y, w2)"
      by (cases "time_sleep sig w1 interval")
    with time_sleep_frame[of sig w1 interval] have l2: "net_log w2 = net_log w1" by simp
    show ?thesis
    proof (cases y)
      case None
      with Suc.prems t Continue s
      have "watch_loop n net sig cb tgs srcs buckets interval dd1 w2 h1 = (fl, dd', w', h')"
        by simp
      from Suc.IH[OF this] b1 obtain zs where
        c2: "cursor_kept_or_fetched net dd1 w2 dd' w' ''global'' ?u k"
        and x2: "net_log w' = net_log w2 @ zs"
        by auto
      from l1 l2 have "net_log w2 = net_log wp @ []" by simp
      from cursor_kept_trans[OF c1 c2 xp this x2]
      have g: "cursor_kept_or_fetched net dd w dd' w' ''global'' ?u k" .
      from x2 l2 x1 have "net_log w' = net_log w @ (xs @ zs)" by simp
      then have "\<exists>xs. net_log w' = net_log w @ xs" ..
      with g show ?thesis by simp
    next
      case (Some e)
      with Suc.prems t Continue s have "dd' = dd1" and "net_log w' = net_log w2"
        by (auto simp add: print_def split: if_splits)
      with stop[of w'] l2 show ?thesis by simp
    qed
  next
    case Break
    with Suc.prems t have "dd' = dd1" and "w' = w1" by simp_all
    with stop[of w1] show ?thesis by simp
  next
    case (Raise e)
    with Suc.prems t have "dd' = dd1" and "w' = w1" by simp_all
    with stop[of w1] show ?thesis by simp
  qed
qed

lemma watch_interval_frame:
  "\<exists>xs. net_log (snd (watch_interval net dd w interval)) = net_log w @ xs"
proof (cases interval)
  case None
  obtain x w1 where h: "head net dd w None = (x, w1)" by (cases "head net dd w None")
  with head_world[of net dd w None] have "net_log w1 = net_log w @ [base_url dd @ ''/diff/head.json'']"
    by simp
  with None h show ?thesis
    by (auto simp add: watch_interval_def split: sum.splits)
next
  case (Some i)
  then show ?thesis by (simp add: watch_interval_def)
qed

lemma watch_cursor:
  assumes "watch n net sig cb tgs srcs interval bks dd w h = (fl, dd', w', h')"
  shows "cursor_kept_or_fetched net dd w dd' w' ''global'' (base_url dd @ ''/diff/latest.json'') k"
proof -
  obtain x w0 where i: "watch_interval net dd w interval = (x, w0)"
    by (cases "watch_interval net dd w interval")
  with watch_interval_frame[of net dd w interval] obtain xs where
    x0: "net_log w0 = net_log w @ xs" by auto
  show ?thesis
  proof (cases x)
    case (Inl e)
    with assms i have "dd' = dd" by (simp add: watch_def)
    then show ?thesis by (simp add: cursor_kept_refl)
  next
    case (Inr secs)
    let ?w = "print PressCtrlC (print (Watching secs) w0)"
    from assms i Inr
    have "watch_loop n net sig cb tgs srcs (default_buckets bks) secs dd ?w h = (fl, dd', w', h')"
      by (simp add: watch_def)
    from watch_loop_cursor[OF this, of k] obtain zs where
      c: "cursor_kept_or_fetched net dd ?w dd' w' ''global'' (base_url dd @ ''/diff/latest.json'') k"
      and z: "net_log w' = net_log ?w @ zs"
      by auto
    have "net_log ?w = net_log w @ xs" using x0 by (simp add: print_def)
    from cursor_kept_trans[where ?w1.0=w and xs="[]" and ys=xs and zs=zs,
        OF cursor_kept_refl c] this z
    show ?thesis by simp
  qed
qed

text \<open>
  C4. For every key \<open>k\<close>: after \<open>poll\<close>, \<open>poll_source\<close> and \<open>watch\<close> (followed for any
  number of passes) the stored cursor of \<open>k\<close> is the one stored before, or \<open>k\<close> is the
  key of the operation (\<open>global\<close>, \<open>source:\<close> and the source id) and the stored cursor is
  the non-empty cursor of a feed that a request of this very operation fetched from the
  latest URL of that key. \<open>head\<close> and \<open>fetch_feed\<close> assign nothing to the client and
  leave the disk, and with it the cursor file, as it was; so does a poll whose only
  request was the head (the head raised, or the head check stopped the poll).
\<close>

theorem cursor_table_invariant:
  "(poll net dd w tgs srcs bks = (r, dd', w') \<longrightarrow>
      cursor_kept_or_fetched net dd w dd' w' ''global'' (base_url dd @ ''/diff/latest.json'') k) \<and>
   (poll_source net dd w sid bks = (r, dd', w') \<longrightarrow>
      cursor_kept_or_fetched net dd w dd' w' (''source:'' @ sid)
        (base_url dd @ ''/diff/source/'' @ sid @ ''/latest.json'') k) \<and>
   (watch n net sig cb tgs srcs interval bks dd w h = (fl, dd', w', h') \<longrightarrow>
      cursor_kept_or_fetched net dd w dd' w' ''global'' (base_url dd @ ''/diff/latest.json'') k) \<and>
   disk (snd (head net dd w u)) = disk w \<and>
   disk (snd (fetch_feed net dd w u)) = disk w \<and>
   (poll_feed net dd w head_u latest_u key tgs srcs buckets = (r, dd', w') \<and>
    net_log w' = net_log w @ [head_u] \<longrightarrow> dd' = dd \<and> disk w' = disk w)"
proof (intro conjI impI)
  assume "poll net dd w tgs srcs bks = (r, dd', w')"
  from poll_cursor(1)[OF this]
  show "cursor_kept_or_fetched net dd w dd' w' ''global'' (base_url dd @ ''/diff/latest.json'') k" .
next
  assume "poll_source net dd w sid bks = (r, dd', w')"
  from poll_source_cursor[OF this]
  show "cursor_kept_or_fetched net dd w dd' w' (''source:'' @ sid)
        (base_url dd @ ''/diff/source/'' @ sid @ ''/latest.json'') k" .
next
  assume "watch n net sig cb tgs srcs interval bks dd w h = (fl, dd', w', h')"
  from watch_cursor[OF this]
  show "cursor_kept_or_fetched net dd w dd' w' ''global'' (base_url dd @ ''/diff/latest.json'') k" .
next
  show "disk (snd (head net dd w u)) = disk w" by (simp add: head_world)
next
  show "disk (snd (fetch_feed net dd w u)) = disk w" by (simp add: fetch_feed_world)
next
  assume a: "poll_feed net dd w head_u latest_u key tgs srcs buckets = (r, dd', w') \<and>
    net_log w' = net_log w @ [head_u]"
  then have p: "poll_feed net dd w head_u latest_u key tgs srcs buckets = (r, dd', w')"
    and l: "net_log w' = net_log w @ [head_u]" by simp_all
  from poll_feed_head_only(1)[OF p l] show "dd' = dd" .
  from poll_feed_head_only(2)[OF p l] show "disk w' = disk w" .
qed

lemma client_base_url: "base_url (client t) = DEFAULT_BASE_URL"
  by (simp add: client_def)

lemma source_server_poll:
  assumes "poll_source (source_server ''src1'' ''c2'') (client []) w ''src1'' None = (r, dd', w')"
  shows "stored_cursor dd' ''source:src1'' = JStr ''c2''"
proof -
  let ?net = "source_server ''src1'' ''c2''"
  let ?hu = "DEFAULT_BASE_URL @ ''/diff/source/'' @ ''src1'' @ ''/head.json''"
  let ?lu = "DEFAULT_BASE_URL @ ''/diff/source/'' @ ''src1'' @ ''/latest.json''"
  let ?w1 = "w\<lparr>net_log := net_log w @ [?hu]\<rparr>"
  let ?w2 = "?w1\<lparr>net_log := net_log ?w1 @ [?lu]\<rparr>"
  have h: "head ?net (client []) w (Some ?hu) = (Inr (head_of ''c2''), ?w1)"
    by (simp add: head_def get_json_def source_server_def dget_def head_of_def)
  have n: "\<not> (truthy (stored_cursor (client []) (''source:'' @ ''src1'')) \<and>
      py_eq (stored_cursor (client []) (''source:'' @ ''src1'')) (Head.cursor (head_of ''c2'')))"
    by (simp add: client_stored)
  have f: "fetch_feed ?net (client []) ?w1 (Some ?lu) = (Inr (feed_abc ''c2''), ?w2)"
    by (simp add: fetch_feed_def get_json_def source_server_def feed_doc_abc_from_raw
        DEFAULT_BASE_URL_def)
  from assms have p: "poll_feed ?net (client []) w ?hu ?lu (''source:'' @ ''src1'') None None
      [''new'', ''updated''] = (r, dd', w')"
    by (simp add: poll_source_def client_base_url default_buckets_def)
  from stored_cursor_cong[OF poll_feed_fetched_frame(1)[OF h n f p], of "''source:src1''"]
  show ?thesis
    by (simp add: save_cursor_stored client_def feed_abc_def)
qed

lemma quadruple: "x = (fst x, fst (snd x), fst (snd (snd x)), snd (snd (snd x)))"
  by simp

theorem cursor_table_invariant_witness:
  "JStr ''c2'' \<in> set (fetched_cursors (server ''c2'') world0
      (snd (snd (poll (server ''c2'') (client []) world0 None None None))) latest_json_url) \<and>
   JStr ''c2'' \<in> set (fetched_cursors (source_server ''src1'' ''c2'') world0
      (snd (snd (poll_source (source_server ''src1'' ''c2'') (client []) world0 ''src1'' None)))
      (DEFAULT_BASE_URL @ ''/diff/source/src1/latest.json'')) \<and>
   JStr ''c2'' \<in> set (fetched_cursors (server ''c2'') world0
      (fst (snd (snd (watch 2 (server ''c2'') never (fail_on (JStr ''A'')) None None (Some 60) None
         (client []) world0 ())))) latest_json_url) \<and>
   fst (snd (poll (server ''c2'') (client [(''global'', JStr ''c2'')]) world0 None None None)) =
     client [(''global'', JStr ''c2'')] \<and>
   disk (snd (snd (poll (server ''c2'') (client [(''global'', JStr ''c2'')]) world0 None None None))) =
     disk world0"
proof -
  let ?p = "poll (server ''c2'') (client []) world0 None None None"
  let ?s = "poll_source (source_server ''src1'' ''c2'') (client []) world0 ''src1'' None"
  let ?wt = "watch 2 (server ''c2'') never (fail_on (JStr ''A'')) None None (Some 60) None
         (client []) world0 ()"
  let ?q = "poll (server ''c2'') (client [(''global'', JStr ''c2'')]) world0 None None None"
  have n: "stored_cursor (client []) k = JNull" for k by (simp add: client_stored)
  have sp: "stored_cursor (fst (snd ?p)) ''global'' = JStr ''c2''"
    using server_poll_first[OF world0_disk]
    by (simp add: poll_def default_buckets_def client_stored)
  from cursor_table_invariant[where net="server ''c2''" and dd="client []" and w=world0
      and tgs=None and srcs=None and bks=None and r="fst ?p" and dd'="fst (snd ?p)"
      and w'="snd (snd ?p)" and k="''global''", THEN conjunct1, THEN mp, OF triple]
  have "cursor_kept_or_fetched (server ''c2'') (client []) world0 (fst (snd ?p)) (snd (snd ?p))
      ''global'' latest_json_url ''global''"
    by (simp add: urls)
  with sp n have 1: "JStr ''c2'' \<in> set (fetched_cursors (server ''c2'') world0 (snd (snd ?p))
      latest_json_url)"
    by (simp add: cursor_kept_or_fetched_def)
  have ss: "stored_cursor (fst (snd ?s)) ''source:src1'' = JStr ''c2''"
    by (rule source_server_poll[OF triple])
  from cursor_table_invariant[where net="source_server ''src1'' ''c2''" and dd="client []"
      and w=world0 and sid="''src1''" and bks=None and r="fst ?s" and dd'="fst (snd ?s)"
      and w'="snd (snd ?s)" and k="''source:src1''",
      THEN conjunct2, THEN conjunct1, THEN mp, OF triple]
  have "cursor_kept_or_fetched (source_server ''src1'' ''c2'') (client []) world0 (fst (snd ?s))
      (snd (snd ?s)) ''source:src1'' (DEFAULT_BASE_URL @ ''/diff/source/src1/latest.json'')
      ''source:src1''"
    by (simp add: client_base_url)
  with ss n have 2: "JStr ''c2'' \<in> set (fetched_cursors (source_server ''src1'' ''c2'') world0
      (snd (snd ?s)) (DEFAULT_BASE_URL @ ''/diff/source/src1/latest.json''))"
    by (simp add: cursor_kept_or_fetched_def)
  from watch_run have sw: "stored_cursor (fst (snd ?wt)) ''global'' = JStr ''c2''"
    by (auto simp add: client_stored)
  from cursor_table_invariant[where net="server ''c2''" and dd="client []" and w=world0
      and n=2 and sig=never and cb="fail_on (JStr ''A'')" and tgs=None and srcs=None
      and interval="Some 60" and bks=None and h="()" and fl="fst ?wt" and dd'="fst (snd ?wt)"
      and w'="fst (snd (snd ?wt))" and h'="snd (snd (snd ?wt))" and k="''global''",
      THEN conjunct2, THEN conjunct2, THEN conjunct1, THEN mp, OF quadruple]
  have "cursor_kept_or_fetched (server ''c2'') (client []) world0 (fst (snd ?wt))
      (fst (snd (snd ?wt))) ''global'' latest_json_url ''global''"
    by (simp add: urls)
  with sw n have 3: "JStr ''c2'' \<in> set (fetched_cursors (server ''c2'') world0
      (fst (snd (snd ?wt))) latest_json_url)"
    by (simp add: cursor_kept_or_fetched_def)
  have q: "?q = (Inr [], client [(''global'', JStr ''c2'')],
      world0\<lparr>net_log := net_log world0 @ [head_json_url]\<rparr>)"
    using server_poll_unchanged[of world0] by (simp add: poll_def default_buckets_def)
  then have pf: "poll_feed (server ''c2'') (client [(''global'', JStr ''c2'')]) world0
      head_json_url latest_json_url ''global'' None None [''new'', ''updated''] =
      (fst ?q, fst (snd ?q), snd (snd ?q))"
    by (simp add: poll_def default_buckets_def urls)
  have l: "net_log (snd (snd ?q)) = net_log world0 @ [head_json_url]" by (simp add: q)
  from cursor_table_invariant[where net="server ''c2''" and dd="client [(''global'', JStr ''c2'')]"
      and w=world0 and head_u=head_json_url and latest_u=latest_json_url and key="''global''"
      and tgs=None and srcs=None and buckets="[''new'', ''updated'']" and r="fst ?q"
      and dd'="fst (snd ?q)" and w'="snd (snd ?q)",
      THEN conjunct2, THEN conjunct2, THEN conjunct2, THEN conjunct2, THEN conjunct2,
      THEN mp, OF conjI[OF pf l]]
  have 4: "fst (snd ?q) = client [(''global'', JStr ''c2'')]"
    and 5: "disk (snd (snd ?q)) = disk world0"
    by simp_all
  show ?thesis by (rule conjI[OF 1 conjI[OF 2 conjI[OF 3 conjI[OF 4 5]]]])
qed

end
